theory Spec2Isabelle
  imports Main
begin

section \<open>Persisted rows\<close>

text \<open>
  The web application (\<^verbatim>\<open>fmn/web/app.py\<close>) drives a relational store through the
  model classes of \<^verbatim>\<open>fmn.lib.models\<close>.  The rows are records; a table is the list of
  its rows, and a row object held by a view is the pair of its position in the table
  and its attributes, so that a method call on the object writes back to that very row.
\<close>

record rule =
  code_path :: string
  arguments :: "(string \<times> string) list"

record filter_row =
  filter_name :: string
  rules :: "rule list"

record preference =
  pref_openid :: string
  pref_context :: string
  detail_value :: "string option"
  enabled :: bool
  batch_delta :: "int option"
  batch_count :: "int option"
  filters :: "filter_row list"

record confirmation =
  secret :: string
  conf_openid :: string
  context_name :: string
  conf_detail_value :: "string option"
  status :: string

record db =
  users :: "string list"
  contexts :: "string list"
  preferences :: "preference list"
  confirmations :: "confirmation list"

type_synonym 'a obj = "nat \<times> 'a"

section \<open>Configuration and requests\<close>

text \<open>
  What the views read from outside the store: \<^verbatim>\<open>app.config\<close>, \<^verbatim>\<open>fedmsg_config\<close>,
  the validators of \<^verbatim>\<open>fmn.lib\<close> and the rule catalogue \<^verbatim>\<open>valid_paths\<close>.  A validator
  answers \<open>None\<close> when it accepts and \<open>Some msg\<close> when it raises with message \<open>msg\<close>.
  \<open>hash_producer\<close> is the token drawn for a Confirmation row created during the call,
  \<open>default_enabled\<close> the column default of a new Preference row.
\<close>

record env =
  FMN_ADMINS :: "string list"
  verify_delivery_details :: "bool option"
  validate_detail_value :: "string \<Rightarrow> string \<Rightarrow> string option"
  valid_paths :: "string \<Rightarrow> (string \<times> string) list \<Rightarrow> string option"
  hash_producer :: string
  default_enabled :: bool

text \<open>
  One request: \<open>g_auth\<close> is \<^verbatim>\<open>flask.g.auth\<close> as \<^verbatim>\<open>check_auth\<close> leaves it (\<open>None\<close>
  when nobody is logged in, in which case the Bunch has no \<^verbatim>\<open>openid\<close> attribute),
  \<open>validate_errors\<close> is \<^verbatim>\<open>form.errors\<close> after \<^verbatim>\<open>form.validate()\<close> (the form classes of
  \<^verbatim>\<open>fmn.web.forms\<close> are taken as given: validation succeeds exactly when there is no
  error), the \<open>f_\<close> fields are the \<^verbatim>\<open>.data\<close> of the form fields, and \<open>form_items\<close> is
  \<^verbatim>\<open>flask.request.form\<close> itself.
\<close>

record request =
  g_auth :: "string option"
  wants_html :: bool
  http_method :: string
  validate_errors :: "(string \<times> string list) list"
  f_openid :: string
  f_context :: string
  f_filter_name :: string
  f_rule_name :: string
  f_method :: "string option"
  f_detail_value :: "string option"
  f_batch_delta :: "string option"
  f_batch_count :: "string option"
  f_toggle_enable :: bool
  form_items :: "(string \<times> string) list"

section \<open>Exceptions and responses\<close>

datatype url =
    Url_index
  | Url_login
  | Url_context string string
  | Url_filter string string string

text \<open>
  The payload of an \<^verbatim>\<open>APIError\<close>: \<^verbatim>\<open>form.errors\<close>, or a \<^verbatim>\<open>dict(reason=...)\<close> whose text
  is kept as the format and its arguments.
\<close>

datatype errors =
    Form_errors "(string \<times> string list) list"
  | Is_not string string
  | Not_a_user string
  | Not_a_context string
  | Not_a_filter string
  | Already_exists string
  | Only_post_delete
  | Reason string
  | Batch_delta_not_integer

datatype exn =
    APIError nat errors
  | ValueError string
  | KeyError string
  | AttributeError
  | NotImplementedError

datatype response =
    Json_ok url
  | Json_error nat errors
  | Redirect url
  | Abort nat
  | Uncaught exn

section \<open>Python built-ins\<close>

text \<open>Truth value of a form field that is \<^verbatim>\<open>None\<close> or a string.\<close>

definition truthy :: "string option \<Rightarrow> bool" where
  "truthy v = (case v of None \<Rightarrow> False | Some s \<Rightarrow> s \<noteq> [])"

text \<open>\<^verbatim>\<open>str.upper\<close> on ASCII text.\<close>

definition upper_char :: "char \<Rightarrow> char" where
  "upper_char c =
     (case map_of (zip ''abcdefghijklmnopqrstuvwxyz'' ''ABCDEFGHIJKLMNOPQRSTUVWXYZ'') c of
        Some u \<Rightarrow> u
      | None \<Rightarrow> c)"

definition upper :: "string \<Rightarrow> string" where
  "upper s = map upper_char s"

text \<open>
  \<^verbatim>\<open>int(s)\<close> on form text, base ten: surrounding whitespace is dropped, one sign is
  allowed, and at least one decimal digit must follow.  \<open>None\<close> stands for the
  \<^verbatim>\<open>ValueError\<close> that \<^verbatim>\<open>int\<close> raises on anything else.  Form text is unicode; a
  \<open>char\<close> is a code point below 256, and among those the whitespace of \<^verbatim>\<open>int\<close> is tab to
  carriage return (9 to 13), the separators 28 to 31, the space, NEL (133) and the
  no-break space (160), and the decimal digits are \<^verbatim>\<open>0\<close> to \<^verbatim>\<open>9\<close>.
\<close>

definition is_space :: "char \<Rightarrow> bool" where
  "is_space c =
     (let n = (of_char c :: nat)
      in (9 \<le> n \<and> n \<le> 13) \<or> (28 \<le> n \<and> n \<le> 32) \<or> n = 133 \<or> n = 160)"

definition strip :: "string \<Rightarrow> string" where
  "strip s = rev (dropWhile is_space (rev (dropWhile is_space s)))"

definition is_digit :: "char \<Rightarrow> bool" where
  "is_digit c = (48 \<le> (of_char c :: nat) \<and> (of_char c :: nat) \<le> 57)"

fun digits_value :: "nat \<Rightarrow> string \<Rightarrow> nat option" where
  "digits_value acc [] = Some acc"
| "digits_value acc (c # cs) =
     (if is_digit c then digits_value (10 * acc + ((of_char c :: nat) - 48)) cs else None)"

definition unsigned_int :: "string \<Rightarrow> nat option" where
  "unsigned_int s = (if s = [] then None else digits_value 0 s)"

definition py_int :: "string \<Rightarrow> int option" where
  "py_int s =
     (case strip s of
        [] \<Rightarrow> None
      | c # cs \<Rightarrow>
          if c = CHR ''-'' then map_option (\<lambda>n. - int n) (unsigned_int cs)
          else if c = CHR ''+'' then map_option int (unsigned_int cs)
          else map_option int (unsigned_int (c # cs)))"

section \<open>Row objects\<close>

text \<open>The first row of a table that satisfies a query, with its position.\<close>

fun first_from :: "nat \<Rightarrow> ('a \<Rightarrow> bool) \<Rightarrow> 'a list \<Rightarrow> 'a obj option" where
  "first_from n P [] = None"
| "first_from n P (x # xs) = (if P x then Some (n, x) else first_from (Suc n) P xs)"

definition first :: "('a \<Rightarrow> bool) \<Rightarrow> 'a list \<Rightarrow> 'a obj option" where
  "first P xs = first_from 0 P xs"

definition set_row :: "'a obj \<Rightarrow> 'a list \<Rightarrow> 'a list" where
  "set_row ob xs = xs[fst ob := snd ob]"

definition remove_row :: "'a obj \<Rightarrow> 'a list \<Rightarrow> 'a list" where
  "remove_row ob xs = take (fst ob) xs @ drop (Suc (fst ob)) xs"

section \<open>The model classes of fmn.lib\<close>

text \<open>
  Modelled from the spec: the methods of \<^verbatim>\<open>fmn.lib.models\<close> that the views call
  (\<^verbatim>\<open>User\<close>, \<^verbatim>\<open>Context\<close>, \<^verbatim>\<open>Preference\<close>, \<^verbatim>\<open>Filter\<close>, \<^verbatim>\<open>Confirmation\<close>) live in
  the package \<^verbatim>\<open>fmn.lib\<close>, whose code is not among the sources of the web application.
  Each one follows the data model and the operation descriptions of the specification;
  every method that writes commits at once.
\<close>

text \<open>Modelled from the spec: users are found by their identifier and created on first contact.\<close>

definition User_by_openid :: "db \<Rightarrow> string \<Rightarrow> string option" where
  "User_by_openid d openid = (if openid \<in> set (users d) then Some openid else None)"

text \<open>Modelled from the spec: \<^verbatim>\<open>User.get_or_create\<close>, missing; a user is created on first
  authenticated contact and never duplicated.\<close>

definition User_get_or_create :: "db \<Rightarrow> string \<Rightarrow> db" where
  "User_get_or_create d openid =
     (if openid \<in> set (users d) then d else d\<lparr>users := users d @ [openid]\<rparr>)"

text \<open>Modelled from the spec: a context is referenced by its unique name.\<close>

definition Context_by_name :: "db \<Rightarrow> string \<Rightarrow> string option" where
  "Context_by_name d name = (if name \<in> set (contexts d) then Some name else None)"

text \<open>
  Modelled from the spec: exactly one Preference per (user, context) pair, created on
  first access; asking again for an existing pair returns the same row.  A new row has
  no detail value, no batch values and no filter.
\<close>

text \<open>Modelled from the spec: the key of a Preference row, its (user, context) pair.\<close>

definition is_pref :: "string \<Rightarrow> string \<Rightarrow> preference \<Rightarrow> bool" where
  "is_pref openid ctx p = (pref_openid p = openid \<and> pref_context p = ctx)"

text \<open>Modelled from the spec: the Preference row that \<^verbatim>\<open>get_or_create\<close> creates.\<close>

definition new_preference :: "env \<Rightarrow> string \<Rightarrow> string \<Rightarrow> preference" where
  "new_preference e openid ctx =
     \<lparr>pref_openid = openid, pref_context = ctx, detail_value = None,
      enabled = default_enabled e, batch_delta = None, batch_count = None, filters = []\<rparr>"

text \<open>Modelled from the spec: \<^verbatim>\<open>Preference.get_or_create\<close>, missing.\<close>

definition Preference_get_or_create ::
  "env \<Rightarrow> db \<Rightarrow> string \<Rightarrow> string \<Rightarrow> db \<times> preference obj" where
  "Preference_get_or_create e d openid ctx =
     (case first (is_pref openid ctx) (preferences d) of
        Some pref \<Rightarrow> (d, pref)
      | None \<Rightarrow>
          (d\<lparr>preferences := preferences d @ [new_preference e openid ctx]\<rparr>,
           (length (preferences d), new_preference e openid ctx)))"

text \<open>Modelled from the spec: the commit of a Preference object, which writes its attributes
  to its row.\<close>

definition save_pref :: "db \<Rightarrow> preference obj \<Rightarrow> db" where
  "save_pref d pref = d\<lparr>preferences := set_row pref (preferences d)\<rparr>"

text \<open>Modelled from the spec: \<^verbatim>\<open>update_details\<close> writes the delivery detail of the row.\<close>

definition update_details :: "db \<Rightarrow> preference obj \<Rightarrow> string option \<Rightarrow> db \<times> preference obj" where
  "update_details d pref v =
     (let pref' = (fst pref, (snd pref)\<lparr>detail_value := v\<rparr>) in (save_pref d pref', pref'))"

text \<open>
  Modelled from the spec: \<^verbatim>\<open>set_batch_values\<close> overwrites both stored batch values
  with its two arguments, \<^verbatim>\<open>None\<close> being the stored null ("disabled").
\<close>

definition set_batch_values ::
  "db \<Rightarrow> preference obj \<Rightarrow> int option \<Rightarrow> int option \<Rightarrow> db \<times> preference obj" where
  "set_batch_values d pref delta count =
     (let pref' = (fst pref, (snd pref)\<lparr>batch_delta := delta, batch_count := count\<rparr>)
      in (save_pref d pref', pref'))"

text \<open>Modelled from the spec: \<^verbatim>\<open>set_enabled\<close> stores the flag and nothing else.\<close>

definition set_enabled :: "db \<Rightarrow> preference obj \<Rightarrow> bool \<Rightarrow> db \<times> preference obj" where
  "set_enabled d pref b =
     (let pref' = (fst pref, (snd pref)\<lparr>enabled := b\<rparr>) in (save_pref d pref', pref'))"

text \<open>
  Modelled from the spec: filters are found by name within their Preference;
  \<^verbatim>\<open>get_filter\<close> raises \<^verbatim>\<open>ValueError\<close> when the name is absent; a created filter has no
  rule and is appended to the Preference; deleting a filter deletes its rules with it.
\<close>

definition has_filter :: "preference obj \<Rightarrow> string \<Rightarrow> bool" where
  "has_filter pref name = (name \<in> set (map filter_name (filters (snd pref))))"

text \<open>Modelled from the spec: \<^verbatim>\<open>Preference.get_filter\<close>, missing; the first filter of that name.\<close>

definition get_filter :: "preference obj \<Rightarrow> string \<Rightarrow> exn + filter_row obj" where
  "get_filter pref name =
     (case first (\<lambda>f. filter_name f = name) (filters (snd pref)) of
        None \<Rightarrow> Inl (ValueError name)
      | Some f \<Rightarrow> Inr f)"

text \<open>Modelled from the spec: \<^verbatim>\<open>Filter.create\<close>, missing; a filter starts without rules.\<close>

definition Filter_create :: "string \<Rightarrow> filter_row" where
  "Filter_create name = \<lparr>filter_name = name, rules = []\<rparr>"

text \<open>Modelled from the spec: \<^verbatim>\<open>Preference.add_filter\<close>, missing; the filter is appended.\<close>

definition add_filter :: "db \<Rightarrow> preference obj \<Rightarrow> filter_row \<Rightarrow> db \<times> preference obj" where
  "add_filter d pref f =
     (let pref' = (fst pref, (snd pref)\<lparr>filters := filters (snd pref) @ [f]\<rparr>)
      in (save_pref d pref', pref'))"

text \<open>Modelled from the spec: \<^verbatim>\<open>SESSION.delete(filter)\<close> and the commit; the filter row goes,
  and its rules with it.\<close>

definition delete_filter :: "db \<Rightarrow> preference obj \<Rightarrow> filter_row obj \<Rightarrow> db" where
  "delete_filter d pref f =
     save_pref d (fst pref, (snd pref)\<lparr>filters := remove_row f (filters (snd pref))\<rparr>)"

text \<open>
  Modelled from the spec: attaching a rule asks the rule catalogue first and fails
  (\<^verbatim>\<open>ValueError\<close>) when the catalogue rejects the code path or its arguments; otherwise
  the rule is appended, keeping insertion order.  Detaching removes the first rule
  with that code path and fails when there is none.
\<close>

definition add_rule ::
  "env \<Rightarrow> db \<Rightarrow> preference obj \<Rightarrow> filter_row obj \<Rightarrow> string \<Rightarrow> (string \<times> string) list
     \<Rightarrow> db \<times> (exn + unit)" where
  "add_rule e d pref f path args =
     (case valid_paths e path args of
        Some msg \<Rightarrow> (d, Inl (ValueError msg))
      | None \<Rightarrow>
          (let f' = (fst f, (snd f)\<lparr>rules := rules (snd f) @ [\<lparr>code_path = path, arguments = args\<rparr>]\<rparr>)
           in (save_pref d (fst pref, (snd pref)\<lparr>filters := set_row f' (filters (snd pref))\<rparr>),
               Inr ())))"

text \<open>Modelled from the spec: the method the view calls to detach a rule, missing.\<close>

definition remove_filter ::
  "db \<Rightarrow> preference obj \<Rightarrow> filter_row obj \<Rightarrow> string \<Rightarrow> db \<times> (exn + unit)" where
  "remove_filter d pref f path =
     (case first (\<lambda>r. code_path r = path) (rules (snd f)) of
        None \<Rightarrow> (d, Inl (ValueError path))
      | Some r \<Rightarrow>
          (let f' = (fst f, (snd f)\<lparr>rules := remove_row r (rules (snd f))\<rparr>)
           in (save_pref d (fst pref, (snd pref)\<lparr>filters := set_row f' (filters (snd pref))\<rparr>),
               Inr ())))"

text \<open>
  Modelled from the spec: the Confirmation Engine.  \<^verbatim>\<open>get_or_create\<close> returns the
  Confirmation of the (user, context) pair, creating it (pending, with a new token and
  no proposed value) when there is none; \<^verbatim>\<open>set_value\<close> overwrites the proposed value in
  place and keeps the token.  Confirmations are keyed by their token, and \<^verbatim>\<open>by_secret\<close>
  looks one up by that key alone.  \<^verbatim>\<open>set_status\<close> stores the state and, on
  \<^verbatim>\<open>accepted\<close>, commits the proposed value into the owning Preference.
\<close>

text \<open>Modelled from the spec: the (user, context) pair a Confirmation belongs to.\<close>

definition is_conf :: "string \<Rightarrow> string \<Rightarrow> confirmation \<Rightarrow> bool" where
  "is_conf openid ctx c = (conf_openid c = openid \<and> context_name c = ctx)"

text \<open>Modelled from the spec: the Confirmation row that \<^verbatim>\<open>get_or_create\<close> creates; its initial
  state is pending.\<close>

definition new_confirmation :: "env \<Rightarrow> string \<Rightarrow> string \<Rightarrow> confirmation" where
  "new_confirmation e openid ctx =
     \<lparr>secret = hash_producer e, conf_openid = openid, context_name = ctx,
      conf_detail_value = None, status = ''pending''\<rparr>"

text \<open>Modelled from the spec: \<^verbatim>\<open>Confirmation.get_or_create\<close>, missing.\<close>

definition Confirmation_get_or_create ::
  "env \<Rightarrow> db \<Rightarrow> string \<Rightarrow> string \<Rightarrow> db \<times> confirmation obj" where
  "Confirmation_get_or_create e d openid ctx =
     (case first (is_conf openid ctx) (confirmations d) of
        Some con \<Rightarrow> (d, con)
      | None \<Rightarrow>
          (d\<lparr>confirmations := confirmations d @ [new_confirmation e openid ctx]\<rparr>,
           (length (confirmations d), new_confirmation e openid ctx)))"

text \<open>Modelled from the spec: \<^verbatim>\<open>Confirmation.by_secret\<close>, missing; the Confirmation that holds
  the token, whatever its state.\<close>

definition by_secret :: "db \<Rightarrow> string \<Rightarrow> confirmation obj option" where
  "by_secret d s = first (\<lambda>c. secret c = s) (confirmations d)"

text \<open>Modelled from the spec: the commit of a Confirmation object.\<close>

definition save_conf :: "db \<Rightarrow> confirmation obj \<Rightarrow> db" where
  "save_conf d con = d\<lparr>confirmations := set_row con (confirmations d)\<rparr>"

text \<open>Modelled from the spec: \<^verbatim>\<open>Confirmation.set_value\<close>, missing; the proposed value is
  overwritten in place.\<close>

definition set_value :: "db \<Rightarrow> confirmation obj \<Rightarrow> string \<Rightarrow> db \<times> confirmation obj" where
  "set_value d con v =
     (let con' = (fst con, (snd con)\<lparr>conf_detail_value := Some v\<rparr>) in (save_conf d con', con'))"

text \<open>Modelled from the spec: \<^verbatim>\<open>Confirmation.set_status\<close>, missing; on acceptance the proposed
  value becomes the detail value of the owning Preference, in the same step.\<close>

definition set_status :: "env \<Rightarrow> db \<Rightarrow> confirmation obj \<Rightarrow> string \<Rightarrow> db \<times> confirmation obj" where
  "set_status e d con s =
     (let con' = (fst con, (snd con)\<lparr>status := s\<rparr>);
          d1 = save_conf d con'
      in if s = ''accepted''
         then (let (d2, pref) = Preference_get_or_create e d1 (conf_openid (snd con')) (context_name (snd con'))
               in (fst (update_details d2 pref (conf_detail_value (snd con'))), con'))
         else (d1, con'))"

section \<open>The views of fmn/web/app.py\<close>

definition admin :: "env \<Rightarrow> string \<Rightarrow> bool" where
  "admin e user = (user \<in> set (FMN_ADMINS e))"

text \<open>
  \<^verbatim>\<open>login_required\<close>: an anonymous caller is sent to the login page; otherwise the
  logged-in user is created if need be and the view runs.
\<close>

definition login_required ::
  "(string \<Rightarrow> db \<Rightarrow> db \<times> response) \<Rightarrow> db \<Rightarrow> request \<Rightarrow> db \<times> response" where
  "login_required function d req =
     (case g_auth req of
        None \<Rightarrow> (d, Redirect Url_login)
      | Some openid \<Rightarrow> function openid (User_get_or_create d openid))"

text \<open>
  \<^verbatim>\<open>api_method\<close>: an \<^verbatim>\<open>APIError\<close> becomes a JSON response with its status code, a result
  becomes a redirect for browsers and a JSON 200 otherwise; any other exception is not
  caught here and leaves the view.
\<close>

definition api_method :: "bool \<Rightarrow> exn + url \<Rightarrow> response" where
  "api_method html r =
     (case r of
        Inl (APIError code errs) \<Rightarrow> Json_error code errs
      | Inl e \<Rightarrow> Uncaught e
      | Inr u \<Rightarrow> if html then Redirect u else Json_ok u)"

text \<open>The handlers \<^verbatim>\<open>except (ValueError, KeyError) as e: raise APIError(403, ...)\<close>.\<close>

definition reraise_403 :: "exn \<Rightarrow> exn" where
  "reraise_403 e =
     (case e of
        ValueError msg \<Rightarrow> APIError 403 (Reason msg)
      | KeyError msg \<Rightarrow> APIError 403 (Reason msg)
      | _ \<Rightarrow> e)"

text \<open>\<^verbatim>\<open>(form.method.data or flask.request.method).upper()\<close>\<close>

definition request_method :: "request \<Rightarrow> string" where
  "request_method req =
     upper (if truthy (f_method req) then (case f_method req of Some m \<Rightarrow> m | None \<Rightarrow> [])
            else http_method req)"

subsection \<open>handle_confirmation\<close>

definition confirmation_view ::
  "env \<Rightarrow> string \<Rightarrow> string \<Rightarrow> string \<Rightarrow> db \<Rightarrow> db \<times> response" where
  "confirmation_view e action scrt auth_openid d =
     (if action \<notin> set [''accept'', ''reject''] then (d, Abort 404)
      else case by_secret d scrt of
        None \<Rightarrow> (d, Abort 404)
      | Some confirmation \<Rightarrow>
          if auth_openid \<noteq> conf_openid (snd confirmation) then (d, Abort 403)
          else
            (let (d', con) =
                   (if action = ''accept'' then set_status e d confirmation ''accepted''
                    else set_status e d confirmation ''rejected'')
             in (d', Redirect (Url_context (conf_openid (snd con)) (context_name (snd con))))))"

definition handle_confirmation ::
  "env \<Rightarrow> db \<Rightarrow> request \<Rightarrow> string \<Rightarrow> string \<Rightarrow> db \<times> response" where
  "handle_confirmation e d req action scrt =
     login_required (confirmation_view e action scrt) d req"

subsection \<open>handle_filter\<close>

definition filter_try ::
  "db \<Rightarrow> preference obj \<Rightarrow> string \<Rightarrow> string \<Rightarrow> string \<Rightarrow> string \<Rightarrow> db \<times> (exn + url)" where
  "filter_try d pref method openid context name =
     (if method = ''POST'' then
        (if has_filter pref name then (d, Inl (APIError 404 (Already_exists name)))
         else (fst (add_filter d pref (Filter_create name)),
               Inr (Url_filter openid context name)))
      else if method = ''DELETE'' then
        (case get_filter pref name of
           Inl x \<Rightarrow> (d, Inl (reraise_403 x))
         | Inr f \<Rightarrow> (delete_filter d pref f, Inr (Url_context openid context)))
      else (d, Inl NotImplementedError))"

definition filter_view :: "env \<Rightarrow> db \<Rightarrow> request \<Rightarrow> db \<times> (exn + url)" where
  "filter_view e d req =
     (if validate_errors req \<noteq> [] then (d, Inl (APIError 400 (Form_errors (validate_errors req))))
      else
        (let openid = f_openid req; context = f_context req; name = f_filter_name req;
             method = request_method req
         in case g_auth req of
              None \<Rightarrow> (d, Inl AttributeError)
            | Some auth_openid \<Rightarrow>
                if auth_openid \<noteq> openid \<and> \<not> admin e auth_openid
                then (d, Inl (APIError 403 (Is_not auth_openid openid)))
                else if method \<notin> set [''POST'', ''DELETE'']
                then (d, Inl (APIError 405 Only_post_delete))
                else if User_by_openid d openid = None
                then (d, Inl (APIError 403 (Not_a_user openid)))
                else
                  (case Context_by_name d context of
                     None \<Rightarrow> (d, Inl (APIError 403 (Not_a_context context)))
                   | Some ctx \<Rightarrow>
                       (let (d1, pref) = Preference_get_or_create e d openid ctx
                        in filter_try d1 pref method openid context name))))"

definition handle_filter :: "env \<Rightarrow> db \<Rightarrow> request \<Rightarrow> db \<times> response" where
  "handle_filter e d req =
     (let (d', r) = filter_view e d req in (d', api_method (wants_html req) r))"

subsection \<open>handle_details\<close>

text \<open>
  \<^verbatim>\<open>int_or_none\<close>: the \<^verbatim>\<open>TypeError\<close> of \<^verbatim>\<open>int(None)\<close> is turned into an \<^verbatim>\<open>APIError\<close>; the
  \<^verbatim>\<open>ValueError\<close> of \<^verbatim>\<open>int\<close> on a string that is no number is not handled there.
\<close>

definition int_or_none :: "string option \<Rightarrow> exn + int option" where
  "int_or_none v =
     (if v = Some ''<disabled>'' then Inr None
      else case v of
        None \<Rightarrow> Inl (APIError 400 Batch_delta_not_integer)
      | Some s \<Rightarrow>
          (case py_int s of
             None \<Rightarrow> Inl (ValueError s)
           | Some n \<Rightarrow> Inr (Some n)))"

text \<open>\<^verbatim>\<open>fedmsg_config.get('fmn.verify_delivery_details', True)\<close>\<close>

definition fedmsg_verify :: "env \<Rightarrow> bool" where
  "fedmsg_verify e = (case verify_delivery_details e of None \<Rightarrow> True | Some b \<Rightarrow> b)"

text \<open>"Are they changing a delivery detail?"\<close>

definition details_change ::
  "env \<Rightarrow> db \<Rightarrow> preference obj \<Rightarrow> string \<Rightarrow> string \<Rightarrow> string option
     \<Rightarrow> db \<times> (exn + preference obj)" where
  "details_change e d pref openid ctx dv =
     (case dv of
        None \<Rightarrow> (d, Inr pref)
      | Some v \<Rightarrow>
          if v \<noteq> [] \<and> Some v \<noteq> detail_value (snd pref) then
            (case validate_detail_value e ctx v of
               Some msg \<Rightarrow> (d, Inl (APIError 403 (Reason msg)))
             | None \<Rightarrow>
                 if fedmsg_verify e then
                   (let (d1, con) = Confirmation_get_or_create e d openid ctx;
                        (d2, con2) = set_value d1 con v;
                        (d3, con3) = set_status e d2 con2 ''pending''
                    in (d3, Inr pref))
                 else
                   (let (d1, pref1) = update_details d pref (Some v) in (d1, Inr pref1)))
          else (d, Inr pref))"

text \<open>"Let them change batch_delta and batch_count as they please."\<close>

definition batch_change ::
  "db \<Rightarrow> preference obj \<Rightarrow> string option \<Rightarrow> string option \<Rightarrow> db \<times> (exn + preference obj)" where
  "batch_change d pref delta count =
     (if truthy delta \<or> truthy count then
        (case int_or_none delta of
           Inl x \<Rightarrow> (d, Inl x)
         | Inr delta' \<Rightarrow>
             (case int_or_none count of
                Inl x \<Rightarrow> (d, Inl x)
              | Inr count' \<Rightarrow>
                  (let (d1, pref1) = set_batch_values d pref delta' count' in (d1, Inr pref1))))
      else (d, Inr pref))"

text \<open>"Also, let them enable or disable as they please."\<close>

definition enable_change :: "db \<Rightarrow> preference obj \<Rightarrow> bool \<Rightarrow> db \<times> preference obj" where
  "enable_change d pref toggle =
     (if toggle then set_enabled d pref (\<not> enabled (snd pref)) else (d, pref))"

definition details_view :: "env \<Rightarrow> db \<Rightarrow> request \<Rightarrow> db \<times> (exn + url)" where
  "details_view e d req =
     (if validate_errors req \<noteq> [] then (d, Inl (APIError 400 (Form_errors (validate_errors req))))
      else
        (let openid = f_openid req; context = f_context req
         in case g_auth req of
              None \<Rightarrow> (d, Inl AttributeError)
            | Some auth_openid \<Rightarrow>
                if auth_openid \<noteq> openid \<and> \<not> admin e auth_openid
                then (d, Inl (APIError 403 (Is_not auth_openid openid)))
                else if User_by_openid d openid = None
                then (d, Inl (APIError 403 (Not_a_user openid)))
                else
                  (case Context_by_name d context of
                     None \<Rightarrow> (d, Inl (APIError 403 (Not_a_context context)))
                   | Some ctx \<Rightarrow>
                       (let (d1, pref) = Preference_get_or_create e d openid ctx
                        in (case details_change e d1 pref openid ctx (f_detail_value req) of
                              (d2, Inl x) \<Rightarrow> (d2, Inl x)
                            | (d2, Inr pref2) \<Rightarrow>
                                (case batch_change d2 pref2 (f_batch_delta req) (f_batch_count req) of
                                   (d3, Inl x) \<Rightarrow> (d3, Inl x)
                                 | (d3, Inr pref3) \<Rightarrow>
                                     (fst (enable_change d3 pref3 (f_toggle_enable req)),
                                      Inr (Url_context openid context))))))))"

definition handle_details :: "env \<Rightarrow> db \<Rightarrow> request \<Rightarrow> db \<times> response" where
  "handle_details e d req =
     (let (d', r) = details_view e d req in (d', api_method (wants_html req) r))"

subsection \<open>handle_rule\<close>

definition rule_arguments :: "request \<Rightarrow> (string \<times> string) list" where
  "rule_arguments req =
     filter (\<lambda>(k, v). k \<notin> set [''openid'', ''filter_name'', ''context'', ''rule_name''])
       (form_items req)"

definition rule_try ::
  "env \<Rightarrow> db \<Rightarrow> preference obj \<Rightarrow> filter_row obj \<Rightarrow> string \<Rightarrow> string
     \<Rightarrow> (string \<times> string) list \<Rightarrow> db \<times> (exn + unit)" where
  "rule_try e d pref f method path args =
     (if method = ''POST'' then
        (case add_rule e d pref f path args of
           (d1, Inl x) \<Rightarrow> (d1, Inl (reraise_403 x))
         | (d1, Inr u) \<Rightarrow> (d1, Inr u))
      else if method = ''DELETE'' then
        (case remove_filter d pref f path of
           (d1, Inl x) \<Rightarrow> (d1, Inl (reraise_403 x))
         | (d1, Inr u) \<Rightarrow> (d1, Inr u))
      else (d, Inl NotImplementedError))"

definition rule_view :: "env \<Rightarrow> db \<Rightarrow> request \<Rightarrow> db \<times> (exn + url)" where
  "rule_view e d req =
     (if validate_errors req \<noteq> [] then (d, Inl (APIError 400 (Form_errors (validate_errors req))))
      else
        (let openid = f_openid req; context = f_context req; name = f_filter_name req;
             path = f_rule_name req; method = request_method req;
             args = rule_arguments req
         in case g_auth req of
              None \<Rightarrow> (d, Inl AttributeError)
            | Some auth_openid \<Rightarrow>
                if auth_openid \<noteq> openid \<and> \<not> admin e auth_openid
                then (d, Inl (APIError 403 (Is_not auth_openid openid)))
                else if method \<notin> set [''POST'', ''DELETE'']
                then (d, Inl (APIError 405 Only_post_delete))
                else if User_by_openid d openid = None
                then (d, Inl (APIError 403 (Not_a_user openid)))
                else
                  (case Context_by_name d context of
                     None \<Rightarrow> (d, Inl (APIError 403 (Not_a_context context)))
                   | Some ctx \<Rightarrow>
                       (let (d1, pref) = Preference_get_or_create e d openid ctx
                        in if \<not> has_filter pref name
                           then (d1, Inl (APIError 403 (Not_a_filter name)))
                           else
                             (case get_filter pref name of
                                Inl x \<Rightarrow> (d1, Inl x)
                              | Inr f \<Rightarrow>
                                  (case rule_try e d1 pref f method path args of
                                     (d2, Inl x) \<Rightarrow> (d2, Inl x)
                                   | (d2, Inr u) \<Rightarrow>
                                       (d2, Inr (Url_filter openid context name))))))))"

definition handle_rule :: "env \<Rightarrow> db \<Rightarrow> request \<Rightarrow> db \<times> response" where
  "handle_rule e d req =
     (let (d', r) = rule_view e d req in (d', api_method (wants_html req) r))"

section \<open>Invariants of the store\<close>

text \<open>A filter name occurs at most once within each Preference.\<close>

definition filter_names_unique :: "db \<Rightarrow> bool" where
  "filter_names_unique d = list_all (\<lambda>p. distinct (map filter_name (filters p))) (preferences d)"

text \<open>
  A Preference object held by a view is in step with the store: it sits at its position
  with the attributes the object carries.
\<close>

definition holds :: "db \<Rightarrow> preference obj \<Rightarrow> bool" where
  "holds d pref = (fst pref < length (preferences d) \<and> preferences d ! fst pref = snd pref)"

section \<open>Reading the store and a request\<close>

text \<open>The Preference of a (user, context) pair as a view obtains it.\<close>

definition current_preference :: "env \<Rightarrow> db \<Rightarrow> string \<Rightarrow> string \<Rightarrow> preference" where
  "current_preference e d openid ctx = snd (snd (Preference_get_or_create e d openid ctx))"

text \<open>The attributes of a Preference other than the batch values and the enabled flag.\<close>

definition outside_batch_enabled ::
  "preference \<Rightarrow> string \<times> string \<times> string option \<times> filter_row list" where
  "outside_batch_enabled p = (pref_openid p, pref_context p, detail_value p, filters p)"

text \<open>
  The checks every API view makes before it touches a Preference: the form validates,
  the caller is logged in and is the target user or an administrator, the target user
  and the context exist.
\<close>

definition passes_checks :: "env \<Rightarrow> db \<Rightarrow> request \<Rightarrow> bool" where
  "passes_checks e d req =
     (validate_errors req = []
      \<and> (case g_auth req of
            None \<Rightarrow> False
          | Some caller \<Rightarrow> caller = f_openid req \<or> admin e caller)
      \<and> f_openid req \<in> set (users d)
      \<and> f_context req \<in> set (contexts d))"

text \<open>
  The detail part of a details request does not fail: the detail value is missing,
  empty or the one the Preference has, or the validator accepts it.
\<close>

definition detail_accepted :: "env \<Rightarrow> db \<Rightarrow> request \<Rightarrow> bool" where
  "detail_accepted e d req =
     (case f_detail_value req of
        None \<Rightarrow> True
      | Some v \<Rightarrow>
          v = []
          \<or> Some v = detail_value (current_preference e d (f_openid req) (f_context req))
          \<or> validate_detail_value e (f_context req) v = None)"

section \<open>A small installation, for concrete runs\<close>

definition env0 :: env where
  "env0 =
     \<lparr>FMN_ADMINS = [''ralph''], verify_delivery_details = None,
      validate_detail_value = (\<lambda>ctx v. if CHR ''@'' \<in> set v then None else Some ''no at sign''),
      valid_paths = (\<lambda>path args. None), hash_producer = ''T'', default_enabled = False\<rparr>"

definition db0 :: db where
  "db0 = \<lparr>users = [''alice'', ''bob''], contexts = [''email''], preferences = [],
          confirmations = []\<rparr>"

definition alice_pref :: preference where
  "alice_pref =
     \<lparr>pref_openid = ''alice'', pref_context = ''email'', detail_value = None, enabled = False,
      batch_delta = None, batch_count = None,
      filters = [\<lparr>filter_name = ''mine'', rules = []\<rparr>]\<rparr>"

definition alice_conf :: confirmation where
  "alice_conf =
     \<lparr>secret = ''T'', conf_openid = ''alice'', context_name = ''email'',
      conf_detail_value = Some ''alice@example.com'', status = ''pending''\<rparr>"

definition db1 :: db where
  "db1 = \<lparr>users = [''alice'', ''bob''], contexts = [''email''], preferences = [alice_pref],
          confirmations = [alice_conf]\<rparr>"

definition req0 :: request where
  "req0 =
     \<lparr>g_auth = Some ''alice'', wants_html = False, http_method = ''POST'',
      validate_errors = [], f_openid = ''alice'', f_context = ''email'',
      f_filter_name = ''mine'', f_rule_name = ''r'', f_method = None, f_detail_value = None,
      f_batch_delta = None, f_batch_count = None, f_toggle_enable = False, form_items = []\<rparr>"

section \<open>Looking rows up\<close>

lemma first_from_Some:
  "first_from n P xs = Some (i, x) \<Longrightarrow> n \<le> i \<and> i < n + length xs \<and> xs ! (i - n) = x \<and> P x"
proof (induction xs arbitrary: n)
  case Nil
  then show ?case by simp
next
  case (Cons y ys)
  show ?case
  proof (cases "P y")
    case True
    with Cons.prems show ?thesis by auto
  next
    case False
    with Cons.prems have "first_from (Suc n) P ys = Some (i, x)" by simp
    from Cons.IH [OF this] show ?thesis by (auto simp: Suc_diff_Suc less_Suc_eq_le)
  qed
qed

lemma first_Some: "first P xs = Some (i, x) \<Longrightarrow> i < length xs \<and> xs ! i = x \<and> P x"
  using first_from_Some [of 0 P xs i x] by (simp add: first_def)

lemma first_from_None: "first_from n P xs = None \<longleftrightarrow> (\<forall>x \<in> set xs. \<not> P x)"
  by (induction xs arbitrary: n) auto

lemma first_None: "first P xs = None \<longleftrightarrow> (\<forall>x \<in> set xs. \<not> P x)"
  by (simp add: first_def first_from_None)

lemma first_from_append_new:
  "first_from n P xs = None \<Longrightarrow> P y \<Longrightarrow> first_from n P (xs @ [y]) = Some (n + length xs, y)"
  by (induction xs arbitrary: n) (auto split: if_splits)

lemma first_append_new:
  "first P xs = None \<Longrightarrow> P y \<Longrightarrow> first P (xs @ [y]) = Some (length xs, y)"
  using first_from_append_new [of 0 P xs y] by (simp add: first_def)

lemma first_from_update_hit:
  "first_from n P xs = Some (i, x) \<Longrightarrow> P y \<Longrightarrow> first_from n P (xs[i - n := y]) = Some (i, y)"
proof (induction xs arbitrary: n)
  case Nil
  then show ?case by simp
next
  case (Cons z zs)
  show ?case
  proof (cases "P z")
    case True
    with Cons.prems show ?thesis by auto
  next
    case False
    with Cons.prems have f: "first_from (Suc n) P zs = Some (i, x)" by simp
    from first_from_Some [OF f] have "Suc n \<le> i" by simp
    then have "i - n = Suc (i - Suc n)" by simp
    with Cons.IH [OF f Cons.prems(2)] False show ?thesis by simp
  qed
qed

lemma first_update_hit:
  "first P xs = Some (i, x) \<Longrightarrow> P y \<Longrightarrow> first P (xs[i := y]) = Some (i, y)"
  using first_from_update_hit [of 0 P xs i x y] by (simp add: first_def)

section \<open>Resolving a confirmation\<close>

lemma by_secret_User_get_or_create [simp]:
  "by_secret (User_get_or_create d openid) s = by_secret d s"
  by (simp add: by_secret_def User_get_or_create_def)

lemma confirmations_User_get_or_create [simp]:
  "confirmations (User_get_or_create d openid) = confirmations d"
  by (simp add: User_get_or_create_def)

lemma preferences_User_get_or_create [simp]:
  "preferences (User_get_or_create d openid) = preferences d"
  by (simp add: User_get_or_create_def)

text \<open>
  C8.  A resolve call by a logged-in caller whose decision is neither \<^verbatim>\<open>accept\<close> nor
  \<^verbatim>\<open>reject\<close> is answered 404 whatever the token and whatever the Confirmations table
  holds: the outcome is a function of the users table alone, and neither the
  Confirmations nor the Preferences are changed.
\<close>

theorem C8_unknown_action_not_found:
  assumes "action \<noteq> ''accept''" and "action \<noteq> ''reject''" and "g_auth req = Some caller"
  shows "handle_confirmation e d req action scrt = (User_get_or_create d caller, Abort 404)
    \<and> confirmations (fst (handle_confirmation e d req action scrt)) = confirmations d
    \<and> preferences (fst (handle_confirmation e d req action scrt)) = preferences d"
  using assms by (simp add: handle_confirmation_def login_required_def confirmation_view_def)

theorem C8_unknown_action_not_found_witness:
  "g_auth req0 = Some ''alice''
    \<and> handle_confirmation env0 db1 req0 ''delete'' ''T'' = (db1, Abort 404)"
  using C8_unknown_action_not_found [of "''delete''" req0 "''alice''" env0 db1 "''T''"]
  by (simp add: req0_def db1_def User_get_or_create_def)

text \<open>
  C6.  A resolve call with a proper decision and a token that finds a Confirmation is
  answered 403 when the logged-in caller is not the Confirmation's user; the
  Confirmations and the Preferences are left as they were.
\<close>

theorem C6_resolve_by_other_user_forbidden:
  assumes "action = ''accept'' \<or> action = ''reject''"
    and "g_auth req = Some caller"
    and "by_secret d scrt = Some con"
    and "caller \<noteq> conf_openid (snd con)"
  shows "handle_confirmation e d req action scrt = (User_get_or_create d caller, Abort 403)
    \<and> confirmations (fst (handle_confirmation e d req action scrt)) = confirmations d
    \<and> preferences (fst (handle_confirmation e d req action scrt)) = preferences d"
  using assms by (auto simp: handle_confirmation_def login_required_def confirmation_view_def)

theorem C6_resolve_by_other_user_forbidden_witness:
  "by_secret db1 ''T'' = Some (0, alice_conf)
    \<and> ''bob'' \<noteq> conf_openid alice_conf
    \<and> handle_confirmation env0 db1 (req0\<lparr>g_auth := Some ''bob''\<rparr>) ''accept'' ''T'' = (db1, Abort 403)"
proof -
  have s: "by_secret db1 ''T'' = Some (0, alice_conf)"
    by (simp add: by_secret_def db1_def first_def alice_conf_def)
  have n: "''bob'' \<noteq> conf_openid (snd (0 :: nat, alice_conf))"
    by (simp add: alice_conf_def)
  have g: "g_auth (req0\<lparr>g_auth := Some ''bob''\<rparr>) = Some ''bob''" by simp
  have u: "User_get_or_create db1 ''bob'' = db1"
    by (simp add: User_get_or_create_def db1_def)
  from C6_resolve_by_other_user_forbidden [of "''accept''" "req0\<lparr>g_auth := Some ''bob''\<rparr>"
      "''bob''" db1 "''T''" "(0, alice_conf)" env0, OF _ g s n] s n u
  show ?thesis by simp
qed

section \<open>Authorisation of the API views\<close>

text \<open>
  C3.  When the logged-in caller is neither the target user of the request nor an
  administrator, none of the three mutating views (filters, details, rules) changes the
  store, and the answer to a request whose form validates is the 403 error.
\<close>

theorem C3_other_user_forbidden:
  assumes "g_auth req = Some caller" and "caller \<noteq> f_openid req" and "\<not> admin e caller"
  shows "fst (handle_filter e d req) = d \<and> fst (handle_details e d req) = d
    \<and> fst (handle_rule e d req) = d
    \<and> (validate_errors req = [] \<longrightarrow>
         handle_filter e d req = (d, Json_error 403 (Is_not caller (f_openid req)))
       \<and> handle_details e d req = (d, Json_error 403 (Is_not caller (f_openid req)))
       \<and> handle_rule e d req = (d, Json_error 403 (Is_not caller (f_openid req))))"
  using assms
  by (simp add: handle_filter_def filter_view_def handle_details_def details_view_def
      handle_rule_def rule_view_def api_method_def Let_def)

theorem C3_other_user_forbidden_witness:
  "g_auth (req0\<lparr>g_auth := Some ''bob''\<rparr>) = Some ''bob'' \<and> ''bob'' \<noteq> f_openid req0
    \<and> \<not> admin env0 ''bob'' \<and> validate_errors req0 = []
    \<and> handle_filter env0 db1 (req0\<lparr>g_auth := Some ''bob''\<rparr>) = (db1, Json_error 403 (Is_not ''bob'' ''alice''))
    \<and> handle_details env0 db1 (req0\<lparr>g_auth := Some ''bob''\<rparr>) = (db1, Json_error 403 (Is_not ''bob'' ''alice''))
    \<and> handle_rule env0 db1 (req0\<lparr>g_auth := Some ''bob''\<rparr>) = (db1, Json_error 403 (Is_not ''bob'' ''alice''))"
proof -
  have a: "\<not> admin env0 ''bob''" by (simp add: admin_def env0_def)
  have n: "''bob'' \<noteq> f_openid (req0\<lparr>g_auth := Some ''bob''\<rparr>)" by (simp add: req0_def)
  have g: "g_auth (req0\<lparr>g_auth := Some ''bob''\<rparr>) = Some ''bob''" by simp
  have v: "validate_errors (req0\<lparr>g_auth := Some ''bob''\<rparr>) = []" by (simp add: req0_def)
  from C3_other_user_forbidden [OF g n a, of db1] v a n show ?thesis
    by (simp add: req0_def)
qed

section \<open>Batch values that are no numbers\<close>

text \<open>
  C7.  A details request whose \<^verbatim>\<open>batch_delta\<close> is the text \<^verbatim>\<open>abc\<close> passes every check
  of the view, and the \<^verbatim>\<open>ValueError\<close> of \<^verbatim>\<open>int\<close> leaves \<^verbatim>\<open>int_or_none\<close> and \<^verbatim>\<open>api_method\<close>
  uncaught: the caller gets no typed error.
\<close>

theorem C7_value_error_escapes:
  "handle_details env0 db1 (req0\<lparr>f_batch_delta := Some ''abc'', f_batch_count := Some ''5''\<rparr>)
     = (db1, Uncaught (ValueError ''abc''))"
  by (simp add: handle_details_def details_view_def req0_def db1_def env0_def admin_def
      User_by_openid_def Context_by_name_def Preference_get_or_create_def first_def
      is_pref_def alice_pref_def details_change_def batch_change_def truthy_def
      int_or_none_def py_int_def strip_def is_space_def unsigned_int_def is_digit_def
      api_method_def Let_def)

section \<open>Obtaining and saving a Preference\<close>

lemma is_pref_new_preference [simp]: "is_pref openid ctx (new_preference e openid ctx)"
  by (simp add: is_pref_def new_preference_def)

lemma Preference_get_or_create_facts:
  assumes "Preference_get_or_create e d openid ctx = (d1, pref)"
  shows "users d1 = users d \<and> contexts d1 = contexts d \<and> confirmations d1 = confirmations d
    \<and> first (is_pref openid ctx) (preferences d1) = Some pref \<and> holds d1 pref"
proof (cases "first (is_pref openid ctx) (preferences d)")
  case None
  with assms have d1: "d1 = d\<lparr>preferences := preferences d @ [new_preference e openid ctx]\<rparr>"
    and pref: "pref = (length (preferences d), new_preference e openid ctx)"
    by (simp_all add: Preference_get_or_create_def)
  from first_append_new [OF None is_pref_new_preference, of e]
  show ?thesis by (simp add: d1 pref holds_def)
next
  case (Some ob)
  with assms have d1: "d1 = d" and pref: "pref = ob"
    by (simp_all add: Preference_get_or_create_def)
  from Some first_Some [of "is_pref openid ctx" "preferences d" "fst ob" "snd ob"]
  show ?thesis by (simp add: d1 pref holds_def)
qed

lemma Preference_get_or_create_again:
  "first (is_pref openid ctx) (preferences d) = Some pref \<Longrightarrow>
     Preference_get_or_create e d openid ctx = (d, pref)"
  by (simp add: Preference_get_or_create_def)

lemma save_pref_simps [simp]:
  "users (save_pref d pref) = users d"
  "contexts (save_pref d pref) = contexts d"
  "confirmations (save_pref d pref) = confirmations d"
  "preferences (save_pref d pref) = (preferences d)[fst pref := snd pref]"
  by (simp_all add: save_pref_def set_row_def)

lemma holds_save_pref: "holds d pref \<Longrightarrow> holds (save_pref d (fst pref, p')) (fst pref, p')"
  by (simp add: holds_def)

lemma map_save_pref:
  assumes "holds d pref" and "g p' = g (snd pref)"
  shows "map g (preferences (save_pref d (fst pref, p'))) = map g (preferences d)"
proof -
  from assms have "(map g (preferences d))[fst pref := g p'] = map g (preferences d)"
    by (simp add: holds_def list_update_same_conv)
  then show ?thesis by (simp add: map_update)
qed

section \<open>The three parts of the details view\<close>

lemma details_change_skip:
  "\<not> truthy dv \<or> dv = detail_value (snd pref) \<Longrightarrow>
     details_change e d pref openid ctx dv = (d, Inr pref)"
  by (auto simp: details_change_def truthy_def split: option.splits)

lemma details_change_verify:
  assumes "v \<noteq> []" and "Some v \<noteq> detail_value (snd pref)"
    and "validate_detail_value e ctx v = None" and "fedmsg_verify e"
  shows "details_change e d pref openid ctx (Some v) =
    (d\<lparr>confirmations :=
         (case first (is_conf openid ctx) (confirmations d) of
            Some con \<Rightarrow>
              (confirmations d)
                [fst con := (snd con)\<lparr>conf_detail_value := Some v, status := ''pending''\<rparr>]
          | None \<Rightarrow>
              confirmations d @
                [(new_confirmation e openid ctx)\<lparr>conf_detail_value := Some v, status := ''pending''\<rparr>])\<rparr>,
     Inr pref)"
  using assms
  by (cases "first (is_conf openid ctx) (confirmations d)")
    (simp_all add: details_change_def Confirmation_get_or_create_def set_value_def
      set_status_def save_conf_def set_row_def Let_def)

lemma batch_change_skip:
  "\<not> truthy delta \<Longrightarrow> \<not> truthy count \<Longrightarrow> batch_change d pref delta count = (d, Inr pref)"
  by (simp add: batch_change_def)

lemma batch_change_facts:
  assumes "batch_change d pref delta count = (d', r)" and "holds d pref"
    and "\<And>p a b. g (p\<lparr>batch_delta := a, batch_count := b\<rparr>) = g p"
  shows "users d' = users d \<and> contexts d' = contexts d \<and> confirmations d' = confirmations d
    \<and> map g (preferences d') = map g (preferences d)
    \<and> (\<forall>pref'. r = Inr pref' \<longrightarrow> holds d' pref')"
proof (cases "truthy delta \<or> truthy count")
  case False
  with assms(1) have "d' = d" "r = Inr pref" by (simp_all add: batch_change_def)
  with assms(2) show ?thesis by simp
next
  case True
  show ?thesis
  proof (cases "\<exists>a b. int_or_none delta = Inr a \<and> int_or_none count = Inr b")
    case False
    with assms(1) have "d' = d \<and> (\<forall>pref'. r \<noteq> Inr pref' \<or> pref' = pref)"
      by (auto simp: batch_change_def split: if_splits sum.splits)
    with assms(2) show ?thesis by auto
  next
    case True
    note t = \<open>truthy delta \<or> truthy count\<close>
    from True obtain a b where a: "int_or_none delta = Inr a" and b: "int_or_none count = Inr b"
      by blast
    let ?p = "(snd pref)\<lparr>batch_delta := a, batch_count := b\<rparr>"
    from assms(1) t a b have d': "d' = save_pref d (fst pref, ?p)" and r: "r = Inr (fst pref, ?p)"
      by (auto simp: batch_change_def set_batch_values_def Let_def)
    from map_save_pref [OF assms(2), of g ?p] assms(3)
    have "map g (preferences d') = map g (preferences d)" by (simp add: d')
    moreover from holds_save_pref [OF assms(2), of ?p] have "holds d' (fst pref, ?p)"
      by (simp add: d')
    ultimately show ?thesis by (simp add: d' r)
  qed
qed

lemma enable_change_facts:
  assumes "holds d pref" and "\<And>p x. g (p\<lparr>enabled := x\<rparr>) = g p"
  shows "users (fst (enable_change d pref t)) = users d
    \<and> contexts (fst (enable_change d pref t)) = contexts d
    \<and> confirmations (fst (enable_change d pref t)) = confirmations d
    \<and> map g (preferences (fst (enable_change d pref t))) = map g (preferences d)"
proof (cases t)
  case False
  then show ?thesis by (simp add: enable_change_def)
next
  case True
  let ?p = "(snd pref)\<lparr>enabled := \<not> enabled (snd pref)\<rparr>"
  from True have d': "fst (enable_change d pref t) = save_pref d (fst pref, ?p)"
    by (simp add: enable_change_def set_enabled_def Let_def)
  from map_save_pref [OF assms(1), of g ?p] assms(2) show ?thesis by (simp add: d')
qed

lemma details_view_passes:
  assumes "passes_checks e d req"
    and "Preference_get_or_create e d (f_openid req) (f_context req) = (d1, pref)"
  shows "details_view e d req =
    (case details_change e d1 pref (f_openid req) (f_context req) (f_detail_value req) of
       (d2, Inl x) \<Rightarrow> (d2, Inl x)
     | (d2, Inr pref2) \<Rightarrow>
         (case batch_change d2 pref2 (f_batch_delta req) (f_batch_count req) of
            (d3, Inl x) \<Rightarrow> (d3, Inl x)
          | (d3, Inr pref3) \<Rightarrow>
              (fst (enable_change d3 pref3 (f_toggle_enable req)),
               Inr (Url_context (f_openid req) (f_context req)))))"
  using assms
  by (auto simp: passes_checks_def details_view_def Let_def User_by_openid_def
      Context_by_name_def split: option.splits)

lemma details_view_refuses:
  "\<not> passes_checks e d req \<Longrightarrow> fst (details_view e d req) = d"
  by (auto simp: passes_checks_def details_view_def Let_def User_by_openid_def
      Context_by_name_def split: option.splits)

text \<open>What the batch part and the enable part, run after one another, leave alone.\<close>

lemma batch_enable_facts:
  assumes "holds d pref"
    and "\<And>p a b. g (p\<lparr>batch_delta := a, batch_count := b\<rparr>) = g p"
    and "\<And>p x. g (p\<lparr>enabled := x\<rparr>) = g p"
    and "(case batch_change d pref delta count of
            (d3, Inl x) \<Rightarrow> (d3, Inl x)
          | (d3, Inr pref3) \<Rightarrow> (fst (enable_change d3 pref3 t), Inr u)) = (d', r)"
  shows "users d' = users d \<and> contexts d' = contexts d \<and> confirmations d' = confirmations d
    \<and> map g (preferences d') = map g (preferences d)"
proof -
  obtain d3 r3 where b: "batch_change d pref delta count = (d3, r3)" by (cases "batch_change d pref delta count")
  from batch_change_facts [OF b assms(1), of g] assms(2)
  have f3: "users d3 = users d \<and> contexts d3 = contexts d \<and> confirmations d3 = confirmations d
    \<and> map g (preferences d3) = map g (preferences d)
    \<and> (\<forall>pref'. r3 = Inr pref' \<longrightarrow> holds d3 pref')" by simp
  show ?thesis
  proof (cases r3)
    case (Inl x)
    with assms(4) b have "d' = d3" by simp
    with f3 show ?thesis by simp
  next
    case (Inr pref3)
    with assms(4) b have d': "d' = fst (enable_change d3 pref3 t)" by auto
    from f3 Inr have "holds d3 pref3" by simp
    from enable_change_facts [OF this, of g t] assms(3) f3 show ?thesis by (simp add: d')
  qed
qed

lemma fst_handle_details [simp]: "fst (handle_details e d req) = fst (details_view e d req)"
  by (simp add: handle_details_def split_def Let_def)

lemma current_preference_found:
  "first (is_pref openid ctx) (preferences d) = Some pref \<Longrightarrow>
     current_preference e d openid ctx = snd pref"
  by (simp add: current_preference_def Preference_get_or_create_again)

lemma found_save_pref:
  assumes "first (is_pref openid ctx) (preferences d) = Some pref"
    and "pref_openid p' = pref_openid (snd pref)" and "pref_context p' = pref_context (snd pref)"
  shows "first (is_pref openid ctx) (preferences (save_pref d (fst pref, p'))) = Some (fst pref, p')"
proof -
  from assms(1) have f: "first (is_pref openid ctx) (preferences d) = Some (fst pref, snd pref)"
    by simp
  from first_Some [OF f] assms(2,3) have "is_pref openid ctx p'" by (simp add: is_pref_def)
  from first_update_hit [OF f this] show ?thesis by simp
qed

section \<open>A detail value that does not change\<close>

lemma details_view_validator:
  assumes "\<not> truthy (f_detail_value req)
    \<or> f_detail_value req = detail_value (current_preference e d (f_openid req) (f_context req))"
  shows "details_view (e\<lparr>validate_detail_value := w\<rparr>) d req = details_view e d req"
proof (cases "passes_checks e d req")
  case False
  then show ?thesis
    by (auto simp: passes_checks_def details_view_def Let_def User_by_openid_def
        Context_by_name_def admin_def split: option.splits)
next
  case True
  obtain d1 pref where g: "Preference_get_or_create e d (f_openid req) (f_context req) = (d1, pref)"
    by (cases "Preference_get_or_create e d (f_openid req) (f_context req)")
  then have g': "Preference_get_or_create (e\<lparr>validate_detail_value := w\<rparr>) d (f_openid req)
      (f_context req) = (d1, pref)"
    by (simp add: Preference_get_or_create_def new_preference_def split: option.splits)
  from True have p': "passes_checks (e\<lparr>validate_detail_value := w\<rparr>) d req"
    by (simp add: passes_checks_def admin_def split: option.splits)
  from assms g have c: "\<not> truthy (f_detail_value req) \<or> f_detail_value req = detail_value (snd pref)"
    by (simp add: current_preference_def)
  show ?thesis
    by (simp add: details_view_passes [OF True g] details_view_passes [OF p' g']
        details_change_skip [OF c])
qed

lemma details_view_unchanged_detail:
  assumes "\<not> truthy (f_detail_value req)
    \<or> f_detail_value req = detail_value (current_preference e d (f_openid req) (f_context req))"
    and "passes_checks e d req"
    and "\<And>p a b. g (p\<lparr>batch_delta := a, batch_count := b\<rparr>) = g p"
    and "\<And>p x. g (p\<lparr>enabled := x\<rparr>) = g p"
  shows "users (fst (details_view e d req)) = users d
    \<and> contexts (fst (details_view e d req)) = contexts d
    \<and> confirmations (fst (details_view e d req)) = confirmations d
    \<and> map g (preferences (fst (details_view e d req))) =
        map g (preferences (fst (Preference_get_or_create e d (f_openid req) (f_context req))))"
proof -
  obtain d1 pref where g: "Preference_get_or_create e d (f_openid req) (f_context req) = (d1, pref)"
    by (cases "Preference_get_or_create e d (f_openid req) (f_context req)")
  from assms(1) g have c: "\<not> truthy (f_detail_value req) \<or> f_detail_value req = detail_value (snd pref)"
    by (simp add: current_preference_def)
  from Preference_get_or_create_facts [OF g]
  have f1: "users d1 = users d" "contexts d1 = contexts d" "confirmations d1 = confirmations d"
    and h: "holds d1 pref" by simp_all
  obtain d' r where v: "details_view e d req = (d', r)" by (cases "details_view e d req")
  from v have "(case batch_change d1 pref (f_batch_delta req) (f_batch_count req) of
            (d3, Inl x) \<Rightarrow> (d3, Inl x)
          | (d3, Inr pref3) \<Rightarrow> (fst (enable_change d3 pref3 (f_toggle_enable req)),
               Inr (Url_context (f_openid req) (f_context req)))) = (d', r)"
    by (simp add: details_view_passes [OF assms(2) g] details_change_skip [OF c])
  from batch_enable_facts [OF h assms(3) assms(4) this] f1 show ?thesis by (simp add: v g)
qed

text \<open>
  C10.  When the detail value of a details request is empty or is the one the
  Preference already has, the Confirmations table is left as it is, every Preference
  keeps its detail value (only batch values and the enabled flag of the rows obtained
  by the view may differ), and the outcome does not depend on the detail validator.
\<close>

theorem C10_unchanged_detail_is_noop:
  assumes "\<not> truthy (f_detail_value req)
    \<or> f_detail_value req = detail_value (current_preference e d (f_openid req) (f_context req))"
  shows "confirmations (fst (handle_details e d req)) = confirmations d
    \<and> users (fst (handle_details e d req)) = users d
    \<and> contexts (fst (handle_details e d req)) = contexts d
    \<and> (fst (handle_details e d req) = d
       \<or> map outside_batch_enabled (preferences (fst (handle_details e d req))) =
           map outside_batch_enabled
             (preferences (fst (Preference_get_or_create e d (f_openid req) (f_context req)))))
    \<and> handle_details (e\<lparr>validate_detail_value := w\<rparr>) d req = handle_details e d req"
proof -
  have v: "handle_details (e\<lparr>validate_detail_value := w\<rparr>) d req = handle_details e d req"
    by (simp add: handle_details_def details_view_validator [OF assms])
  show ?thesis
  proof (cases "passes_checks e d req")
    case False
    from details_view_refuses [OF False] v show ?thesis by simp
  next
    case True
    from details_view_unchanged_detail [OF assms True, of outside_batch_enabled] v
    show ?thesis by (simp add: outside_batch_enabled_def)
  qed
qed

theorem C10_unchanged_detail_is_noop_witness:
  "\<not> truthy (f_detail_value (req0\<lparr>f_batch_delta := Some ''60'', f_batch_count := Some ''<disabled>''\<rparr>))
    \<and> handle_details env0 db1 (req0\<lparr>f_batch_delta := Some ''60'', f_batch_count := Some ''<disabled>''\<rparr>)
        = (db1\<lparr>preferences := [alice_pref\<lparr>batch_delta := Some 60\<rparr>]\<rparr>,
           Json_ok (Url_context ''alice'' ''email''))
    \<and> confirmations (fst (handle_details env0 db1
          (req0\<lparr>f_batch_delta := Some ''60'', f_batch_count := Some ''<disabled>''\<rparr>)))
        = [alice_conf]"
proof -
  have h: "\<not> truthy (f_detail_value (req0\<lparr>f_batch_delta := Some ''60'', f_batch_count := Some ''<disabled>''\<rparr>))"
    by (simp add: truthy_def req0_def)
  have r: "handle_details env0 db1 (req0\<lparr>f_batch_delta := Some ''60'', f_batch_count := Some ''<disabled>''\<rparr>)
        = (db1\<lparr>preferences := [alice_pref\<lparr>batch_delta := Some 60\<rparr>]\<rparr>,
           Json_ok (Url_context ''alice'' ''email''))"
    by (simp add: handle_details_def details_view_def req0_def db1_def env0_def admin_def
      User_by_openid_def Context_by_name_def Preference_get_or_create_def first_def
      is_pref_def alice_pref_def details_change_def batch_change_def truthy_def
      int_or_none_def py_int_def strip_def is_space_def unsigned_int_def is_digit_def
      api_method_def Let_def enable_change_def set_batch_values_def save_pref_def set_row_def)
  from C10_unchanged_detail_is_noop [OF disjI1, OF h, of env0 db1] h r show ?thesis
    by (simp add: db1_def)
qed

section \<open>Toggling delivery\<close>


lemma current_after_enable_change:
  assumes "first (is_pref openid ctx) (preferences d) = Some pref"
  shows "first (is_pref openid ctx) (preferences (fst (enable_change d pref t))) =
      Some (fst pref, (snd pref)\<lparr>enabled := (if t then \<not> enabled (snd pref) else enabled (snd pref))\<rparr>)"
proof (cases t)
  case False
  with assms show ?thesis by (simp add: enable_change_def)
next
  case True
  from found_save_pref [OF assms, of "(snd pref)\<lparr>enabled := \<not> enabled (snd pref)\<rparr>"] True
  show ?thesis by (simp add: enable_change_def set_enabled_def Let_def)
qed


section \<open>A detail value that changes under verification\<close>

lemma count_update:
  "i < length xs \<Longrightarrow> P y = P (xs ! i) \<Longrightarrow>
     length (filter P (xs[i := y])) = length (filter P xs)"
proof (induction xs arbitrary: i)
  case Nil
  then show ?case by simp
next
  case (Cons x xs)
  then show ?case by (cases i) auto
qed

lemma is_conf_requested [simp]:
  "is_conf openid ctx (c\<lparr>conf_detail_value := v, status := s\<rparr>) = is_conf openid ctx c"
  by (simp add: is_conf_def)

lemma is_conf_new_confirmation [simp]: "is_conf openid ctx (new_confirmation e openid ctx)"
  by (simp add: is_conf_def new_confirmation_def)

text \<open>The Confirmations table after a request for the pair, and what it holds.\<close>

lemma requested_table:
  assumes "X = (case first (is_conf openid ctx) cs of
            Some con \<Rightarrow> cs[fst con := (snd con)\<lparr>conf_detail_value := Some v, status := ''pending''\<rparr>]
          | None \<Rightarrow> cs @ [(new_confirmation e openid ctx)\<lparr>conf_detail_value := Some v, status := ''pending''\<rparr>])"
  shows "(\<exists>con. first (is_conf openid ctx) X = Some con
            \<and> conf_detail_value (snd con) = Some v \<and> status (snd con) = ''pending'')
    \<and> (length (filter (is_conf openid ctx) cs) \<le> 1 \<longrightarrow> length (filter (is_conf openid ctx) X) = 1)"
proof (cases "first (is_conf openid ctx) cs")
  case None
  let ?n = "(new_confirmation e openid ctx)\<lparr>conf_detail_value := Some v, status := ''pending''\<rparr>"
  from None assms have X: "X = cs @ [?n]" by simp
  from None have "filter (is_conf openid ctx) cs = []"
    by (simp add: first_None filter_empty_conv)
  then have "length (filter (is_conf openid ctx) X) = 1" by (simp add: X)
  moreover from first_append_new [OF None, of ?n]
  have "first (is_conf openid ctx) X = Some (length cs, ?n)" by (simp add: X)
  ultimately show ?thesis by simp
next
  case (Some con)
  let ?c = "(snd con)\<lparr>conf_detail_value := Some v, status := ''pending''\<rparr>"
  from Some assms have X: "X = cs[fst con := ?c]" by simp
  from Some have f: "first (is_conf openid ctx) cs = Some (fst con, snd con)" by simp
  from first_Some [OF f] have i: "fst con < length cs" and n: "cs ! fst con = snd con"
    and p: "is_conf openid ctx (snd con)" by simp_all
  from first_update_hit [OF f, of ?c] p
  have h: "first (is_conf openid ctx) X = Some (fst con, ?c)" by (simp add: X)
  from nth_mem [OF i] n p have "snd con \<in> set (filter (is_conf openid ctx) cs)" by simp
  then have "0 < length (filter (is_conf openid ctx) cs)" by (rule length_pos_if_in_set)
  then have "1 \<le> length (filter (is_conf openid ctx) cs)" by linarith
  moreover from count_update [OF i, of "is_conf openid ctx" ?c] n
  have "length (filter (is_conf openid ctx) X) = length (filter (is_conf openid ctx) cs)"
    by (simp add: X)
  ultimately show ?thesis using h by simp
qed

text \<open>
  C1.  Verification being in force, a details request that passes the checks of the
  view and proposes a non-empty detail value which differs from the current one and
  which the validator accepts leaves the detail value of every Preference as it was;
  the Confirmations table is the old one with the Confirmation of the (user, context)
  pair overwritten in place, or with one new Confirmation appended when the pair had
  none; that Confirmation proposes the new value and is pending, and when the pair had
  at most one Confirmation before it has exactly one afterwards.
\<close>

theorem C1_detail_change_awaits_confirmation:
  assumes "passes_checks e d req" and "fedmsg_verify e"
    and "f_detail_value req = Some v" and "v \<noteq> []"
    and "Some v \<noteq> detail_value (current_preference e d (f_openid req) (f_context req))"
    and "validate_detail_value e (f_context req) v = None"
  shows "map detail_value (preferences (fst (handle_details e d req))) =
      map detail_value
        (preferences (fst (Preference_get_or_create e d (f_openid req) (f_context req))))
    \<and> confirmations (fst (handle_details e d req)) =
        (case first (is_conf (f_openid req) (f_context req)) (confirmations d) of
           Some con \<Rightarrow>
             (confirmations d)
               [fst con := (snd con)\<lparr>conf_detail_value := Some v, status := ''pending''\<rparr>]
         | None \<Rightarrow>
             confirmations d @
               [(new_confirmation e (f_openid req) (f_context req))
                  \<lparr>conf_detail_value := Some v, status := ''pending''\<rparr>])
    \<and> (\<exists>con. first (is_conf (f_openid req) (f_context req))
                (confirmations (fst (handle_details e d req))) = Some con
            \<and> conf_detail_value (snd con) = Some v \<and> status (snd con) = ''pending'')
    \<and> (length (filter (is_conf (f_openid req) (f_context req)) (confirmations d)) \<le> 1 \<longrightarrow>
         length (filter (is_conf (f_openid req) (f_context req))
           (confirmations (fst (handle_details e d req)))) = 1)"
proof -
  let ?o = "f_openid req" and ?c = "f_context req"
  let ?X = "case first (is_conf ?o ?c) (confirmations d) of
           Some con \<Rightarrow>
             (confirmations d)
               [fst con := (snd con)\<lparr>conf_detail_value := Some v, status := ''pending''\<rparr>]
         | None \<Rightarrow>
             confirmations d @
               [(new_confirmation e ?o ?c)\<lparr>conf_detail_value := Some v, status := ''pending''\<rparr>]"
  obtain d0 pref where g: "Preference_get_or_create e d ?o ?c = (d0, pref)"
    by (cases "Preference_get_or_create e d ?o ?c")
  from Preference_get_or_create_facts [OF g]
  have c0: "confirmations d0 = confirmations d" and h0: "holds d0 pref" by simp_all
  from assms(5) g have n: "Some v \<noteq> detail_value (snd pref)"
    by (simp add: current_preference_def)
  let ?d2 = "d0\<lparr>confirmations := ?X\<rparr>"
  have dc: "details_change e d0 pref ?o ?c (f_detail_value req) = (?d2, Inr pref)"
    by (simp add: assms(3) details_change_verify [OF assms(4) n assms(6) assms(2)] c0
        cong: option.case_cong)
  from h0 have h2: "holds ?d2 pref" by (simp add: holds_def)
  obtain d' r where v: "details_view e d req = (d', r)" by (cases "details_view e d req")
  then have "(case batch_change ?d2 pref (f_batch_delta req) (f_batch_count req) of
            (d3, Inl x) \<Rightarrow> (d3, Inl x)
          | (d3, Inr pref3) \<Rightarrow> (fst (enable_change d3 pref3 (f_toggle_enable req)),
               Inr (Url_context ?o ?c))) = (d', r)"
    by (simp add: details_view_passes [OF assms(1) g] dc)
  from batch_enable_facts [OF h2 _ _ this, of detail_value]
  have "confirmations d' = ?X" and "map detail_value (preferences d') = map detail_value (preferences d0)"
    by simp_all
  with requested_table [where openid = ?o and ctx = ?c and cs = "confirmations d" and v = v
      and e = e, OF refl]
  show ?thesis
    by (simp add: v g)
qed

theorem C1_detail_change_awaits_confirmation_witness:
  "passes_checks env0 db0 (req0\<lparr>f_detail_value := Some ''alice@example.com''\<rparr>)
    \<and> fedmsg_verify env0
    \<and> validate_detail_value env0 ''email'' ''alice@example.com'' = None
    \<and> map detail_value (preferences (fst (handle_details env0 db0
          (req0\<lparr>f_detail_value := Some ''alice@example.com''\<rparr>)))) = [None]
    \<and> confirmations (fst (handle_details env0 db0
          (req0\<lparr>f_detail_value := Some ''alice@example.com''\<rparr>))) = [alice_conf]"
proof -
  let ?r = "req0\<lparr>f_detail_value := Some ''alice@example.com''\<rparr>"
  have c: "passes_checks env0 db0 ?r" by (simp add: passes_checks_def req0_def db0_def)
  have f: "fedmsg_verify env0" by (simp add: fedmsg_verify_def env0_def)
  have o: "f_openid ?r = ''alice''" "f_context ?r = ''email''" by (simp_all add: req0_def)
  have g: "Preference_get_or_create env0 db0 ''alice'' ''email'' =
      (db0\<lparr>preferences := [new_preference env0 ''alice'' ''email'']\<rparr>,
       (0, new_preference env0 ''alice'' ''email''))"
    by (simp add: Preference_get_or_create_def db0_def first_def)
  have dv: "f_detail_value ?r = Some ''alice@example.com''" by simp
  have ne: "''alice@example.com'' \<noteq> []" by simp
  have n: "Some ''alice@example.com'' \<noteq>
      detail_value (current_preference env0 db0 (f_openid ?r) (f_context ?r))"
    by (simp add: o current_preference_def g new_preference_def)
  have vd: "validate_detail_value env0 (f_context ?r) ''alice@example.com'' = None"
    by (simp add: env0_def)
  note run = C1_detail_change_awaits_confirmation [OF c f dv ne n vd]
  from run have m: "map detail_value (preferences (fst (handle_details env0 db0 ?r))) = [None]"
    by (simp add: o g new_preference_def cong: option.case_cong)
  have x: "(case first (is_conf ''alice'' ''email'') (confirmations db0) of
           Some con \<Rightarrow>
             (confirmations db0)
               [fst con := (snd con)\<lparr>conf_detail_value := Some ''alice@example.com'',
                  status := ''pending''\<rparr>]
         | None \<Rightarrow>
             confirmations db0 @
               [(new_confirmation env0 ''alice'' ''email'')
                  \<lparr>conf_detail_value := Some ''alice@example.com'', status := ''pending''\<rparr>])
      = [alice_conf]"
    by (simp add: db0_def first_def new_confirmation_def env0_def alice_conf_def)
  from run have k: "confirmations (fst (handle_details env0 db0 ?r)) = [alice_conf]"
    by (simp add: o x cong: option.case_cong)
  from c f vd m k show ?thesis by (simp add: o)
qed

section \<open>Batch values\<close>

lemma int_or_none_disabled: "int_or_none (Some ''<disabled>'') = Inr None"
  by (simp add: int_or_none_def)

lemma int_or_none_Inr_truthy: "int_or_none v = Inr a \<Longrightarrow> truthy v"
  by (cases v)
    (auto simp: int_or_none_def truthy_def py_int_def strip_def split: if_splits option.splits)

lemma batch_change_both:
  assumes "truthy delta \<or> truthy count"
    and "int_or_none delta = Inr a" and "int_or_none count = Inr b"
  shows "batch_change d pref delta count =
    (save_pref d (fst pref, (snd pref)\<lparr>batch_delta := a, batch_count := b\<rparr>),
     Inr (fst pref, (snd pref)\<lparr>batch_delta := a, batch_count := b\<rparr>))"
  using assms by (auto simp: batch_change_def set_batch_values_def Let_def)

lemma batch_change_one_missing:
  assumes "(delta = None \<and> truthy count) \<or> (count = None \<and> (\<exists>a. int_or_none delta = Inr a))"
  shows "batch_change d pref delta count = (d, Inl (APIError 400 Batch_delta_not_integer))"
proof -
  from assms int_or_none_Inr_truthy have t: "truthy delta \<or> truthy count" by blast
  from assms show ?thesis
  proof
    assume "delta = None \<and> truthy count"
    with t show ?thesis by (simp add: batch_change_def int_or_none_def)
  next
    assume "count = None \<and> (\<exists>a. int_or_none delta = Inr a)"
    then obtain a where "count = None" and "int_or_none delta = Inr a" by blast
    with t show ?thesis by (simp add: batch_change_def) (simp add: int_or_none_def)
  qed
qed

text \<open>
  C5, as the claim states it.  With the batch count left out, whether as a missing field
  or as an empty one, the request that carries \<^verbatim>\<open>batch_delta=3600\<close> fails and stores
  nothing, and so does the request that carries only \<^verbatim>\<open>batch_count=10\<close>: after the two
  calls the stored values are not 3600 and 10.
\<close>

theorem C5_omitted_field_counterexample:
  "handle_details env0 db1 (req0\<lparr>f_batch_delta := Some ''3600''\<rparr>)
      = (db1, Json_error 400 Batch_delta_not_integer)
    \<and> handle_details env0 db1 (req0\<lparr>f_batch_count := Some ''10''\<rparr>)
      = (db1, Json_error 400 Batch_delta_not_integer)
    \<and> handle_details env0 db1 (req0\<lparr>f_batch_delta := Some ''3600'', f_batch_count := Some ''''\<rparr>)
      = (db1, Uncaught (ValueError ''''))
    \<and> \<not> (batch_delta (current_preference env0
              (fst (handle_details env0
                 (fst (handle_details env0 db1 (req0\<lparr>f_batch_delta := Some ''3600''\<rparr>)))
                 (req0\<lparr>f_batch_count := Some ''10''\<rparr>))) ''alice'' ''email'') = Some 3600
          \<and> batch_count (current_preference env0
              (fst (handle_details env0
                 (fst (handle_details env0 db1 (req0\<lparr>f_batch_delta := Some ''3600''\<rparr>)))
                 (req0\<lparr>f_batch_count := Some ''10''\<rparr>))) ''alice'' ''email'') = Some 10)"
proof -
  have r1: "handle_details env0 db1 (req0\<lparr>f_batch_delta := Some ''3600''\<rparr>)
      = (db1, Json_error 400 Batch_delta_not_integer)"
    by (simp add: handle_details_def details_view_def req0_def db1_def env0_def admin_def
      User_by_openid_def Context_by_name_def Preference_get_or_create_def first_def
      is_pref_def alice_pref_def details_change_def batch_change_def truthy_def
      int_or_none_def py_int_def strip_def is_space_def unsigned_int_def is_digit_def
      api_method_def Let_def)
  have r2: "handle_details env0 db1 (req0\<lparr>f_batch_count := Some ''10''\<rparr>)
      = (db1, Json_error 400 Batch_delta_not_integer)"
    by (simp add: handle_details_def details_view_def req0_def db1_def env0_def admin_def
      User_by_openid_def Context_by_name_def Preference_get_or_create_def first_def
      is_pref_def alice_pref_def details_change_def batch_change_def truthy_def
      int_or_none_def api_method_def Let_def)
  have r3: "handle_details env0 db1 (req0\<lparr>f_batch_delta := Some ''3600'', f_batch_count := Some ''''\<rparr>)
      = (db1, Uncaught (ValueError ''''))"
    by (simp add: handle_details_def details_view_def req0_def db1_def env0_def admin_def
      User_by_openid_def Context_by_name_def Preference_get_or_create_def first_def
      is_pref_def alice_pref_def details_change_def batch_change_def truthy_def
      int_or_none_def py_int_def strip_def is_space_def unsigned_int_def is_digit_def
      api_method_def Let_def)
  have c: "current_preference env0 db1 ''alice'' ''email'' = alice_pref"
    by (simp add: current_preference_def Preference_get_or_create_def db1_def first_def
        is_pref_def alice_pref_def)
  show ?thesis by (simp add: r1 r2 r3 c) (simp add: alice_pref_def)
qed

section \<open>Filter names stay unique\<close>

lemma filter_names_unique_map:
  "filter_names_unique d = list_all (\<lambda>fs. distinct (map filter_name fs)) (map filters (preferences d))"
  by (simp add: filter_names_unique_def list_all_iff)

lemma filter_names_unique_same_filters:
  "map filters (preferences d') = map filters (preferences d) \<Longrightarrow>
     filter_names_unique d' = filter_names_unique d"
  by (simp add: filter_names_unique_map)

lemma filter_names_unique_save_pref:
  assumes "filter_names_unique d" and "distinct (map filter_name (filters p'))"
  shows "filter_names_unique (save_pref d (i, p'))"
proof -
  have "set ((preferences d)[i := p']) \<subseteq> insert p' (set (preferences d))"
    by (rule set_update_subset_insert)
  with assms show ?thesis by (auto simp: filter_names_unique_def list_all_iff)
qed

lemma filter_names_unique_held:
  "filter_names_unique d \<Longrightarrow> holds d pref \<Longrightarrow> distinct (map filter_name (filters (snd pref)))"
  using nth_mem [of "fst pref" "preferences d"]
  by (auto simp: filter_names_unique_def list_all_iff holds_def)

lemma filter_names_unique_get_or_create:
  assumes "filter_names_unique d" and "Preference_get_or_create e d openid ctx = (d1, pref)"
  shows "filter_names_unique d1"
proof (cases "first (is_pref openid ctx) (preferences d)")
  case None
  with assms(2) have "d1 = d\<lparr>preferences := preferences d @ [new_preference e openid ctx]\<rparr>"
    by (simp add: Preference_get_or_create_def)
  with assms(1) show ?thesis by (simp add: filter_names_unique_def new_preference_def)
next
  case (Some ob)
  with assms show ?thesis by (simp add: Preference_get_or_create_def)
qed

lemma details_change_facts:
  assumes "details_change e d pref openid ctx dv = (d', r)" and "holds d pref"
    and "\<And>p x. g (p\<lparr>detail_value := x\<rparr>) = g p"
  shows "map g (preferences d') = map g (preferences d) \<and> (\<forall>pref'. r = Inr pref' \<longrightarrow> holds d' pref')"
proof (cases "\<exists>v. dv = Some v \<and> v \<noteq> [] \<and> Some v \<noteq> detail_value (snd pref)")
  case False
  then have "\<not> truthy dv \<or> dv = detail_value (snd pref)" by (cases dv) (auto simp: truthy_def)
  from details_change_skip [OF this, of e d openid ctx] assms(1,2) show ?thesis by simp
next
  case True
  then obtain v where dv: "dv = Some v" and ne: "v \<noteq> []" and ch: "Some v \<noteq> detail_value (snd pref)"
    by blast
  show ?thesis
  proof (cases "validate_detail_value e ctx v")
    case (Some msg)
    with assms(1) dv ne ch have "d' = d" and "\<forall>pref'. r \<noteq> Inr pref'"
      by (auto simp: details_change_def)
    then show ?thesis by simp
  next
    case None
    show ?thesis
    proof (cases "fedmsg_verify e")
      case True
      from assms(1) details_change_verify [OF ne ch None True, of d openid] dv
      have "preferences d' = preferences d" and "r = Inr pref" by auto
      with assms(2) show ?thesis by (simp add: holds_def)
    next
      case False
      let ?p = "(snd pref)\<lparr>detail_value := Some v\<rparr>"
      from assms(1) dv ne ch None False
      have d': "d' = save_pref d (fst pref, ?p)" and r: "r = Inr (fst pref, ?p)"
        by (auto simp: details_change_def update_details_def Let_def)
      from map_save_pref [OF assms(2), of g ?p] assms(3)
      have "map g (preferences d') = map g (preferences d)" by (simp add: d')
      moreover from holds_save_pref [OF assms(2), of ?p] have "holds d' (fst pref, ?p)"
        by (simp add: d')
      ultimately show ?thesis by (simp add: r)
    qed
  qed
qed

lemma details_view_filters:
  "map filters (preferences (fst (details_view e d req))) = map filters (preferences d)
    \<or> map filters (preferences (fst (details_view e d req))) =
        map filters (preferences (fst (Preference_get_or_create e d (f_openid req) (f_context req))))"
proof (cases "passes_checks e d req")
  case False
  from details_view_refuses [OF this] show ?thesis by simp
next
  case True
  let ?o = "f_openid req" and ?c = "f_context req"
  obtain d1 pref where g: "Preference_get_or_create e d ?o ?c = (d1, pref)"
    by (cases "Preference_get_or_create e d ?o ?c")
  from Preference_get_or_create_facts [OF g] have h1: "holds d1 pref" by simp
  obtain d2 r2 where dc: "details_change e d1 pref ?o ?c (f_detail_value req) = (d2, r2)"
    by (cases "details_change e d1 pref ?o ?c (f_detail_value req)")
  from details_change_facts [OF dc h1, of filters]
  have m2: "map filters (preferences d2) = map filters (preferences d1)"
    and h2: "\<forall>pref'. r2 = Inr pref' \<longrightarrow> holds d2 pref'" by simp_all
  have "map filters (preferences (fst (details_view e d req))) = map filters (preferences d1)"
  proof (cases r2)
    case (Inl x)
    with dc m2 show ?thesis by (simp add: details_view_passes [OF True g])
  next
    case (Inr pref2)
    with h2 have hp: "holds d2 pref2" by simp
    obtain d' r where v: "details_view e d req = (d', r)" by (cases "details_view e d req")
    with dc Inr have "(case batch_change d2 pref2 (f_batch_delta req) (f_batch_count req) of
            (d3, Inl x) \<Rightarrow> (d3, Inl x)
          | (d3, Inr pref3) \<Rightarrow> (fst (enable_change d3 pref3 (f_toggle_enable req)),
               Inr (Url_context ?o ?c))) = (d', r)"
      by (simp add: details_view_passes [OF True g])
    from batch_enable_facts [OF hp _ _ this, of filters] m2 v show ?thesis by simp
  qed
  then show ?thesis by (simp add: g)
qed

lemma filter_names_unique_details:
  assumes "filter_names_unique d"
  shows "filter_names_unique (fst (handle_details e d req))"
proof -
  let ?o = "f_openid req" and ?c = "f_context req"
  obtain d1 pref where g: "Preference_get_or_create e d ?o ?c = (d1, pref)"
    by (cases "Preference_get_or_create e d ?o ?c")
  from filter_names_unique_get_or_create [OF assms g] have u1: "filter_names_unique d1" .
  from details_view_filters [of e d req] g
  consider "map filters (preferences (fst (details_view e d req))) = map filters (preferences d)"
    | "map filters (preferences (fst (details_view e d req))) = map filters (preferences d1)"
    by auto
  then show ?thesis
  proof cases
    case 1
    from filter_names_unique_same_filters [OF 1] assms show ?thesis by simp
  next
    case 2
    from filter_names_unique_same_filters [OF 2] u1 show ?thesis by simp
  qed
qed

lemma filter_names_unique_set_status:
  assumes "filter_names_unique d"
  shows "filter_names_unique (fst (set_status e d con s))"
proof -
  let ?d1 = "save_conf d (fst con, (snd con)\<lparr>status := s\<rparr>)"
  from assms have u1: "filter_names_unique ?d1"
    by (simp add: filter_names_unique_def save_conf_def)
  show ?thesis
  proof (cases "s = ''accepted''")
    case False
    with u1 show ?thesis by (simp add: set_status_def Let_def)
  next
    case True
    obtain d2 pref where g: "Preference_get_or_create e ?d1 (conf_openid (snd con))
        (context_name (snd con)) = (d2, pref)"
      by (cases "Preference_get_or_create e ?d1 (conf_openid (snd con)) (context_name (snd con))")
    from filter_names_unique_get_or_create [OF u1 g] have u2: "filter_names_unique d2" .
    from Preference_get_or_create_facts [OF g] have "holds d2 pref" by simp
    from filter_names_unique_held [OF u2 this]
    have "distinct (map filter_name (filters ((snd pref)\<lparr>detail_value := conf_detail_value (snd con)\<rparr>)))"
      by simp
    from filter_names_unique_save_pref [OF u2 this, of "fst pref"] g True show ?thesis
      by (simp add: set_status_def Let_def update_details_def)
  qed
qed

lemma filter_names_unique_confirmation:
  assumes "filter_names_unique d"
  shows "filter_names_unique (fst (handle_confirmation e d req action scrt))"
proof (cases "g_auth req")
  case None
  with assms show ?thesis by (simp add: handle_confirmation_def login_required_def)
next
  case (Some caller)
  from assms have u: "filter_names_unique (User_get_or_create d caller)"
    by (simp add: filter_names_unique_def)
  have "filter_names_unique (fst (confirmation_view e action scrt caller (User_get_or_create d caller)))"
  proof (cases "by_secret (User_get_or_create d caller) scrt")
    case None
    with u show ?thesis by (simp add: confirmation_view_def)
  next
    case (Some con)
    with u filter_names_unique_set_status [OF u, of e con] show ?thesis
      by (auto simp: confirmation_view_def split_def Let_def)
  qed
  with Some show ?thesis by (simp add: handle_confirmation_def login_required_def)
qed

lemma distinct_remove_row:
  assumes "distinct (map f xs)"
  shows "distinct (map f (remove_row ob xs))"
proof -
  let ?ys = "map f xs" and ?i = "fst ob"
  from assms have "set (take ?i ?ys) \<inter> set (drop (Suc ?i) ?ys) = {}"
    by (intro set_take_disj_set_drop_if_distinct) simp_all
  with assms have "distinct (take ?i ?ys @ drop (Suc ?i) ?ys)" by simp
  then show ?thesis by (simp add: remove_row_def take_map drop_map)
qed

lemma names_set_row:
  assumes "first P fs = Some fo" and "filter_name f' = filter_name (snd fo)"
  shows "map filter_name (set_row (fst fo, f') fs) = map filter_name fs"
proof -
  from assms(1) have "first P fs = Some (fst fo, snd fo)" by simp
  from first_Some [OF this] have "fst fo < length fs" and "fs ! fst fo = snd fo" by simp_all
  with assms(2) have "(map filter_name fs)[fst fo := filter_name f'] = map filter_name fs"
    by (simp add: list_update_same_conv)
  then show ?thesis by (simp add: set_row_def map_update)
qed

lemma count_name:
  "distinct (map f xs) \<Longrightarrow>
     length (filter (\<lambda>y. f y = a) xs) = (if a \<in> f ` set xs then 1 else 0)"
  by (induction xs) auto

lemma get_filter_found:
  "get_filter pref name = Inr f \<Longrightarrow>
     first (\<lambda>f. filter_name f = name) (filters (snd pref)) = Some f"
  by (auto simp: get_filter_def split: option.splits)

lemma filter_try_unique:
  assumes "filter_names_unique d" and "holds d pref"
  shows "filter_names_unique (fst (filter_try d pref method openid context name))"
proof -
  let ?p = "snd pref"
  from filter_names_unique_held [OF assms] have dn: "distinct (map filter_name (filters ?p))" .
  consider (post) "method = ''POST''" | (delete) "method \<noteq> ''POST''" "method = ''DELETE''"
    | (other) "method \<noteq> ''POST''" "method \<noteq> ''DELETE''" by blast
  then show ?thesis
  proof cases
    case post
    show ?thesis
    proof (cases "has_filter pref name")
      case True
      with post assms(1) show ?thesis by (simp add: filter_try_def)
    next
      case False
      with dn have "distinct (map filter_name (filters (?p\<lparr>filters := filters ?p @ [Filter_create name]\<rparr>)))"
        by (simp add: has_filter_def Filter_create_def)
      from filter_names_unique_save_pref [OF assms(1) this, of "fst pref"] post False
      show ?thesis by (simp add: filter_try_def add_filter_def Let_def)
    qed
  next
    case delete
    show ?thesis
    proof (cases "get_filter pref name")
      case (Inl x)
      with delete assms(1) show ?thesis by (simp add: filter_try_def)
    next
      case (Inr f)
      from distinct_remove_row [OF dn, of f]
      have "distinct (map filter_name (filters (?p\<lparr>filters := remove_row f (filters ?p)\<rparr>)))"
        by simp
      from filter_names_unique_save_pref [OF assms(1) this, of "fst pref"] delete Inr
      show ?thesis by (simp add: filter_try_def delete_filter_def)
    qed
  next
    case other
    with assms(1) show ?thesis by (simp add: filter_try_def)
  qed
qed

lemma filter_view_passes:
  assumes "passes_checks e d req"
    and "request_method req = ''POST'' \<or> request_method req = ''DELETE''"
    and "Preference_get_or_create e d (f_openid req) (f_context req) = (d1, pref)"
  shows "filter_view e d req =
    filter_try d1 pref (request_method req) (f_openid req) (f_context req) (f_filter_name req)"
  using assms
  by (auto simp: passes_checks_def filter_view_def Let_def User_by_openid_def
      Context_by_name_def split: option.splits)

lemma filter_view_refuses:
  assumes "\<not> (passes_checks e d req
      \<and> (request_method req = ''POST'' \<or> request_method req = ''DELETE''))"
  shows "fst (filter_view e d req) = d"
  using assms
  by (auto simp: passes_checks_def filter_view_def Let_def User_by_openid_def
      Context_by_name_def split: option.splits)

lemma fst_handle_filter [simp]: "fst (handle_filter e d req) = fst (filter_view e d req)"
  by (simp add: handle_filter_def split_def Let_def)

lemma filter_names_unique_filter:
  assumes "filter_names_unique d"
  shows "filter_names_unique (fst (handle_filter e d req))"
proof (cases "passes_checks e d req
      \<and> (request_method req = ''POST'' \<or> request_method req = ''DELETE'')")
  case False
  from filter_view_refuses [OF this] assms show ?thesis by simp
next
  case True
  obtain d1 pref where g: "Preference_get_or_create e d (f_openid req) (f_context req) = (d1, pref)"
    by (cases "Preference_get_or_create e d (f_openid req) (f_context req)")
  from filter_names_unique_get_or_create [OF assms g] have u1: "filter_names_unique d1" .
  from Preference_get_or_create_facts [OF g] have h1: "holds d1 pref" by simp
  from True filter_view_passes [OF _ _ g] filter_try_unique [OF u1 h1] show ?thesis by simp
qed

lemma rule_try_unique:
  assumes "filter_names_unique d" and "holds d pref"
    and "first (\<lambda>f. filter_name f = name) (filters (snd pref)) = Some f"
  shows "filter_names_unique (fst (rule_try e d pref f method path args))"
proof -
  let ?p = "snd pref"
  from filter_names_unique_held [OF assms(1,2)] have dn: "distinct (map filter_name (filters ?p))" .
  have keep: "filter_names_unique (save_pref d (fst pref, ?p\<lparr>filters := set_row (fst f, f') (filters ?p)\<rparr>))"
    if "filter_name f' = filter_name (snd f)" for f'
  proof -
    from names_set_row [OF assms(3) that] dn
    have "distinct (map filter_name (filters (?p\<lparr>filters := set_row (fst f, f') (filters ?p)\<rparr>)))"
      by simp
    from filter_names_unique_save_pref [OF assms(1) this] show ?thesis .
  qed
  consider (post) "method = ''POST''" | (delete) "method \<noteq> ''POST''" "method = ''DELETE''"
    | (other) "method \<noteq> ''POST''" "method \<noteq> ''DELETE''" by blast
  then show ?thesis
  proof cases
    case post
    show ?thesis
    proof (cases "valid_paths e path args")
      case (Some msg)
      with post assms(1) show ?thesis by (simp add: rule_try_def add_rule_def)
    next
      case None
      from keep [of "(snd f)\<lparr>rules := rules (snd f) @ [\<lparr>code_path = path, arguments = args\<rparr>]\<rparr>"]
        post None
      show ?thesis by (simp add: rule_try_def add_rule_def Let_def)
    qed
  next
    case delete
    show ?thesis
    proof (cases "first (\<lambda>r. code_path r = path) (rules (snd f))")
      case None
      with delete assms(1) show ?thesis by (simp add: rule_try_def remove_filter_def)
    next
      case (Some r)
      from keep [of "(snd f)\<lparr>rules := remove_row r (rules (snd f))\<rparr>"] delete Some
      show ?thesis by (simp add: rule_try_def remove_filter_def Let_def)
    qed
  next
    case other
    with assms(1) show ?thesis by (simp add: rule_try_def)
  qed
qed

lemma rule_view_cases:
  assumes "Preference_get_or_create e d (f_openid req) (f_context req) = (d1, pref)"
  shows "fst (rule_view e d req) = d \<or> fst (rule_view e d req) = d1
    \<or> (\<exists>f. get_filter pref (f_filter_name req) = Inr f
          \<and> fst (rule_view e d req) =
              fst (rule_try e d1 pref f (request_method req) (f_rule_name req) (rule_arguments req)))"
proof (cases "get_filter pref (f_filter_name req)")
  case (Inl x)
  with assms show ?thesis
    by (auto simp: rule_view_def Let_def Context_by_name_def split: option.splits)
next
  case (Inr f)
  obtain d2 r2 where t: "rule_try e d1 pref f (request_method req) (f_rule_name req)
      (rule_arguments req) = (d2, r2)"
    by (cases "rule_try e d1 pref f (request_method req) (f_rule_name req) (rule_arguments req)")
  with assms Inr show ?thesis
    by (cases r2) (auto simp: rule_view_def Let_def Context_by_name_def split: option.splits)
qed

lemma fst_handle_rule [simp]: "fst (handle_rule e d req) = fst (rule_view e d req)"
  by (simp add: handle_rule_def split_def Let_def)

lemma filter_names_unique_rule:
  assumes "filter_names_unique d"
  shows "filter_names_unique (fst (handle_rule e d req))"
proof -
  obtain d1 pref where g: "Preference_get_or_create e d (f_openid req) (f_context req) = (d1, pref)"
    by (cases "Preference_get_or_create e d (f_openid req) (f_context req)")
  from filter_names_unique_get_or_create [OF assms g] have u1: "filter_names_unique d1" .
  from Preference_get_or_create_facts [OF g] have h1: "holds d1 pref" by simp
  from rule_view_cases [OF g]
  consider "fst (rule_view e d req) = d" | "fst (rule_view e d req) = d1"
    | f where "get_filter pref (f_filter_name req) = Inr f"
        "fst (rule_view e d req) =
           fst (rule_try e d1 pref f (request_method req) (f_rule_name req) (rule_arguments req))"
    by blast
  then show ?thesis
  proof cases
    case 1
    with assms show ?thesis by simp
  next
    case 2
    with u1 show ?thesis by simp
  next
    case 3
    from rule_try_unique [OF u1 h1 get_filter_found [OF 3(1)]] 3(2) show ?thesis by simp
  qed
qed

lemma duplicate_filter_refused:
  assumes "passes_checks e d req" and "request_method req = ''POST''"
    and "f_filter_name req \<in> set (map filter_name
          (filters (current_preference e d (f_openid req) (f_context req))))"
  shows "handle_filter e d req = (d, Json_error 404 (Already_exists (f_filter_name req)))
    \<and> current_preference e d (f_openid req) (f_context req) \<in> set (preferences d)"
proof (cases "first (is_pref (f_openid req) (f_context req)) (preferences d)")
  case None
  then have "current_preference e d (f_openid req) (f_context req) =
      new_preference e (f_openid req) (f_context req)"
    by (simp add: current_preference_def Preference_get_or_create_def)
  with assms(3) show ?thesis by (simp add: new_preference_def)
next
  case (Some pref)
  from Preference_get_or_create_again [OF Some]
  have g: "Preference_get_or_create e d (f_openid req) (f_context req) = (d, pref)" .
  from Some have "first (is_pref (f_openid req) (f_context req)) (preferences d) = Some (fst pref, snd pref)"
    by simp
  from first_Some [OF this] have m: "snd pref \<in> set (preferences d)" by (auto dest: nth_mem)
  from assms(3) g have h: "has_filter pref (f_filter_name req)"
    by (simp add: current_preference_def has_filter_def)
  from assms(2) h have "filter_view e d req =
      (d, Inl (APIError 404 (Already_exists (f_filter_name req))))"
    by (simp add: filter_view_passes [OF assms(1) _ g] filter_try_def)
  with m g show ?thesis by (simp add: handle_filter_def api_method_def current_preference_def)
qed

text \<open>
  C4.  A request to create a filter which passes the checks of the view and names a
  filter the Preference already has is refused with the "already exists" error (the
  view answers it with status 404) and the store is left untouched, so the filter that
  was there still is, and, names having been unique, is the only one of its name.  Every
  view, whatever the request, takes a store whose filter names are unique within each
  Preference to a store of the same kind.
\<close>

theorem C4_filter_names_stay_unique:
  "(passes_checks e d req \<and> request_method req = ''POST''
      \<and> f_filter_name req \<in> set (map filter_name
            (filters (current_preference e d (f_openid req) (f_context req)))) \<longrightarrow>
        handle_filter e d req = (d, Json_error 404 (Already_exists (f_filter_name req)))
      \<and> (filter_names_unique d \<longrightarrow>
           length (filter (\<lambda>f. filter_name f = f_filter_name req)
             (filters (current_preference e (fst (handle_filter e d req))
                (f_openid req) (f_context req)))) = 1))
   \<and> (filter_names_unique d \<longrightarrow>
        filter_names_unique (fst (handle_filter e d req))
      \<and> filter_names_unique (fst (handle_details e d req))
      \<and> filter_names_unique (fst (handle_rule e d req))
      \<and> filter_names_unique (fst (handle_confirmation e d req action scrt)))"
proof (intro conjI impI)
  assume h: "passes_checks e d req \<and> request_method req = ''POST''
      \<and> f_filter_name req \<in> set (map filter_name
            (filters (current_preference e d (f_openid req) (f_context req))))"
  then have c: "passes_checks e d req" and p: "request_method req = ''POST''"
    and n: "f_filter_name req \<in> set (map filter_name
            (filters (current_preference e d (f_openid req) (f_context req))))"
    by simp_all
  from duplicate_filter_refused [OF c p n]
  show r: "handle_filter e d req = (d, Json_error 404 (Already_exists (f_filter_name req)))"
    by simp
  assume u: "filter_names_unique d"
  let ?p = "current_preference e d (f_openid req) (f_context req)"
  from duplicate_filter_refused [OF c p n] have "?p \<in> set (preferences d)" by simp
  with u have "distinct (map filter_name (filters ?p))"
    by (auto simp: filter_names_unique_def list_all_iff)
  from count_name [OF this, of "f_filter_name req"] n
  show "length (filter (\<lambda>f. filter_name f = f_filter_name req)
             (filters (current_preference e (fst (handle_filter e d req))
                (f_openid req) (f_context req)))) = 1"
    unfolding r by simp
next
  assume "filter_names_unique d"
  then show "filter_names_unique (fst (handle_filter e d req))"
    by (rule filter_names_unique_filter)
next
  assume "filter_names_unique d"
  then show "filter_names_unique (fst (handle_details e d req))"
    by (rule filter_names_unique_details)
next
  assume "filter_names_unique d"
  then show "filter_names_unique (fst (handle_rule e d req))"
    by (rule filter_names_unique_rule)
next
  assume "filter_names_unique d"
  then show "filter_names_unique (fst (handle_confirmation e d req action scrt))"
    by (rule filter_names_unique_confirmation)
qed

theorem C4_filter_names_stay_unique_witness:
  "passes_checks env0 db1 req0 \<and> request_method req0 = ''POST''
    \<and> f_filter_name req0 \<in> set (map filter_name (filters (current_preference env0 db1 ''alice'' ''email'')))
    \<and> filter_names_unique db1
    \<and> handle_filter env0 db1 req0 = (db1, Json_error 404 (Already_exists ''mine''))
    \<and> filter_names_unique (fst (handle_filter env0 db1 (req0\<lparr>f_filter_name := ''other''\<rparr>)))"
proof -
  have c: "passes_checks env0 db1 req0" by (simp add: passes_checks_def req0_def db1_def)
  have p: "request_method req0 = ''POST''"
    by (simp add: request_method_def req0_def truthy_def upper_def upper_char_def)
  have o: "f_openid req0 = ''alice''" "f_context req0 = ''email''" "f_filter_name req0 = ''mine''"
    by (simp_all add: req0_def)
  have cur: "current_preference env0 db1 ''alice'' ''email'' = alice_pref"
    by (simp add: current_preference_def Preference_get_or_create_def db1_def first_def
        is_pref_def alice_pref_def)
  have n: "f_filter_name req0 \<in> set (map filter_name
      (filters (current_preference env0 db1 (f_openid req0) (f_context req0))))"
    by (simp add: o cur) (simp add: alice_pref_def)
  have u: "filter_names_unique db1"
    by (simp add: filter_names_unique_def db1_def alice_pref_def)
  from C4_filter_names_stay_unique [of env0 db1 req0] c p n
  have r: "handle_filter env0 db1 req0 = (db1, Json_error 404 (Already_exists ''mine''))"
    by (simp add: o)
  from C4_filter_names_stay_unique [of env0 db1 "req0\<lparr>f_filter_name := ''other''\<rparr>"] u
  have k: "filter_names_unique (fst (handle_filter env0 db1 (req0\<lparr>f_filter_name := ''other''\<rparr>)))"
    by blast
  from c p n u r k show ?thesis by (simp add: o)
qed

section \<open>The toggle negates the flag\<close>

lemma details_change_found:
  assumes "first (is_pref o' c') (preferences d) = Some pref"
    and "details_change e d pref openid ctx dv = (d', Inr pref')"
  shows "first (is_pref o' c') (preferences d') = Some pref'
    \<and> enabled (snd pref') = enabled (snd pref)"
proof (cases "\<exists>v. dv = Some v \<and> v \<noteq> [] \<and> Some v \<noteq> detail_value (snd pref)")
  case False
  then have "\<not> truthy dv \<or> dv = detail_value (snd pref)" by (cases dv) (auto simp: truthy_def)
  from details_change_skip [OF this, of e d openid ctx] assms show ?thesis by simp
next
  case True
  then obtain v where dv: "dv = Some v" and ne: "v \<noteq> []" and ch: "Some v \<noteq> detail_value (snd pref)"
    by blast
  from assms(2) dv ne ch have ok: "validate_detail_value e ctx v = None"
    by (cases "validate_detail_value e ctx v") (auto simp: details_change_def)
  show ?thesis
  proof (cases "fedmsg_verify e")
    case True
    from assms(2) details_change_verify [OF ne ch ok True, of d openid] dv
    have "preferences d' = preferences d" and "pref' = pref" by auto
    with assms(1) show ?thesis by simp
  next
    case False
    let ?p = "(snd pref)\<lparr>detail_value := Some v\<rparr>"
    from assms(2) dv ne ch ok False
    have d': "d' = save_pref d (fst pref, ?p)" and r: "pref' = (fst pref, ?p)"
      by (auto simp: details_change_def update_details_def Let_def)
    from found_save_pref [OF assms(1), of ?p] show ?thesis by (simp add: d' r)
  qed
qed







section \<open>Resolving a token again\<close>











section \<open>Batch values are written together\<close>

lemma details_change_batch:
  assumes "details_change e d pref openid ctx dv = (d', Inr pref')"
  shows "batch_delta (snd pref') = batch_delta (snd pref)
    \<and> batch_count (snd pref') = batch_count (snd pref)"
  using assms
  by (auto simp: details_change_def update_details_def Let_def split_def
      split: option.splits if_splits)

lemma details_change_accepted:
  assumes "case dv of None \<Rightarrow> True
    | Some v \<Rightarrow> v = [] \<or> Some v = detail_value (snd pref) \<or> validate_detail_value e ctx v = None"
  shows "\<exists>d' pref'. details_change e d pref openid ctx dv = (d', Inr pref')"
  using assms
  by (auto simp: details_change_def update_details_def Let_def split_def split: option.splits)

lemma details_change_rejected:
  assumes "\<not> (case dv of None \<Rightarrow> True
    | Some v \<Rightarrow> v = [] \<or> Some v = detail_value (snd pref) \<or> validate_detail_value e ctx v = None)"
  shows "\<exists>msg. details_change e d pref openid ctx dv = (d, Inl (APIError 403 (Reason msg)))"
  using assms
  by (auto simp: details_change_def split: option.splits)

text \<open>
  C5, amended.  Take a details request that passes the checks of the view.  When its
  detail value is missing, empty, unchanged or accepted by the validator: with both
  batch fields empty or missing the stored batch values stay; with at least one given
  and both read as an integer or as \<^verbatim>\<open><disabled>\<close>, both stored values are overwritten
  with what was read, \<^verbatim>\<open><disabled>\<close> being read as null; with one field missing and the
  other one reading so, the request is answered with the 400 error and the stored batch
  values stay.  When the validator rejects the detail value, the request is answered
  with the 403 error and nothing but the obtained Preference is written.
\<close>

theorem C5_batch_values_written_together:
  assumes "passes_checks e d req"
  shows "(detail_accepted e d req \<longrightarrow>
      (\<not> truthy (f_batch_delta req) \<and> \<not> truthy (f_batch_count req) \<longrightarrow>
          batch_delta (current_preference e (fst (handle_details e d req)) (f_openid req) (f_context req))
            = batch_delta (current_preference e d (f_openid req) (f_context req))
        \<and> batch_count (current_preference e (fst (handle_details e d req)) (f_openid req) (f_context req))
            = batch_count (current_preference e d (f_openid req) (f_context req)))
      \<and> (\<forall>a b. (truthy (f_batch_delta req) \<or> truthy (f_batch_count req))
            \<and> int_or_none (f_batch_delta req) = Inr a \<and> int_or_none (f_batch_count req) = Inr b \<longrightarrow>
          batch_delta (current_preference e (fst (handle_details e d req)) (f_openid req) (f_context req)) = a
        \<and> batch_count (current_preference e (fst (handle_details e d req)) (f_openid req) (f_context req)) = b)
      \<and> ((f_batch_delta req = None \<and> truthy (f_batch_count req))
            \<or> (f_batch_count req = None \<and> (\<exists>a. int_or_none (f_batch_delta req) = Inr a)) \<longrightarrow>
          snd (handle_details e d req) = Json_error 400 Batch_delta_not_integer
        \<and> batch_delta (current_preference e (fst (handle_details e d req)) (f_openid req) (f_context req))
            = batch_delta (current_preference e d (f_openid req) (f_context req))
        \<and> batch_count (current_preference e (fst (handle_details e d req)) (f_openid req) (f_context req))
            = batch_count (current_preference e d (f_openid req) (f_context req))))
    \<and> (\<not> detail_accepted e d req \<longrightarrow>
        (\<exists>msg. snd (handle_details e d req) = Json_error 403 (Reason msg))
        \<and> fst (handle_details e d req) =
            fst (Preference_get_or_create e d (f_openid req) (f_context req)))
    \<and> int_or_none (Some ''<disabled>'') = Inr None"
proof -
  let ?o = "f_openid req" and ?c = "f_context req"
  let ?t = "f_toggle_enable req"
  let ?cur = "current_preference e d ?o ?c"
  let ?cur' = "current_preference e (fst (handle_details e d req)) ?o ?c"
  obtain d0 pref where g: "Preference_get_or_create e d ?o ?c = (d0, pref)"
    by (cases "Preference_get_or_create e d ?o ?c")
  from Preference_get_or_create_facts [OF g]
  have f0: "first (is_pref ?o ?c) (preferences d0) = Some pref" by simp
  have cur: "?cur = snd pref" by (simp add: current_preference_def g)
  have rejected: "(\<exists>msg. snd (handle_details e d req) = Json_error 403 (Reason msg))
        \<and> fst (handle_details e d req) = fst (Preference_get_or_create e d ?o ?c)"
    if "\<not> detail_accepted e d req"
  proof -
    from that have "\<not> (case f_detail_value req of None \<Rightarrow> True
      | Some v \<Rightarrow> v = [] \<or> Some v = detail_value (snd pref)
          \<or> validate_detail_value e ?c v = None)"
      by (simp add: detail_accepted_def cur cong: option.case_cong)
    from details_change_rejected [OF this, of d0 ?o] obtain msg
      where "details_change e d0 pref ?o ?c (f_detail_value req) = (d0, Inl (APIError 403 (Reason msg)))"
      by blast
    then have "handle_details e d req = (d0, Json_error 403 (Reason msg))"
      by (simp add: handle_details_def details_view_passes [OF assms g] api_method_def)
    then show ?thesis by (simp add: g)
  qed
  have accepted: "(\<not> truthy (f_batch_delta req) \<and> \<not> truthy (f_batch_count req) \<longrightarrow>
          batch_delta ?cur' = batch_delta ?cur \<and> batch_count ?cur' = batch_count ?cur)
      \<and> (\<forall>a b. (truthy (f_batch_delta req) \<or> truthy (f_batch_count req))
            \<and> int_or_none (f_batch_delta req) = Inr a \<and> int_or_none (f_batch_count req) = Inr b \<longrightarrow>
          batch_delta ?cur' = a \<and> batch_count ?cur' = b)
      \<and> ((f_batch_delta req = None \<and> truthy (f_batch_count req))
            \<or> (f_batch_count req = None \<and> (\<exists>a. int_or_none (f_batch_delta req) = Inr a)) \<longrightarrow>
          snd (handle_details e d req) = Json_error 400 Batch_delta_not_integer
        \<and> batch_delta ?cur' = batch_delta ?cur \<and> batch_count ?cur' = batch_count ?cur)"
    if "detail_accepted e d req"
  proof -
    from that have "case f_detail_value req of None \<Rightarrow> True
      | Some v \<Rightarrow> v = [] \<or> Some v = detail_value (snd pref)
          \<or> validate_detail_value e ?c v = None"
      by (simp add: detail_accepted_def cur cong: option.case_cong)
    from details_change_accepted [OF this, of d0 ?o] obtain d2 pref2
      where dc: "details_change e d0 pref ?o ?c (f_detail_value req) = (d2, Inr pref2)" by blast
    from details_change_found [OF f0 dc]
    have f2: "first (is_pref ?o ?c) (preferences d2) = Some pref2" by simp
    from details_change_batch [OF dc] cur
    have b2: "batch_delta (snd pref2) = batch_delta ?cur" "batch_count (snd pref2) = batch_count ?cur"
      by simp_all
    have f2cur: "current_preference e d2 ?o ?c = snd pref2"
      by (rule current_preference_found [OF f2])
    have view: "details_view e d req =
      (case batch_change d2 pref2 (f_batch_delta req) (f_batch_count req) of
         (d3, Inl x) \<Rightarrow> (d3, Inl x)
       | (d3, Inr pref3) \<Rightarrow> (fst (enable_change d3 pref3 ?t), Inr (Url_context ?o ?c)))"
      by (simp add: details_view_passes [OF assms g] dc)
    have none: "batch_delta ?cur' = batch_delta ?cur \<and> batch_count ?cur' = batch_count ?cur"
      if "\<not> truthy (f_batch_delta req)" and "\<not> truthy (f_batch_count req)"
    proof -
      from that have "fst (details_view e d req) = fst (enable_change d2 pref2 ?t)"
        by (simp add: view batch_change_skip)
      with current_preference_found [OF current_after_enable_change [OF f2, of ?t], of e] b2
      show ?thesis by simp
    qed
    have both: "batch_delta ?cur' = a \<and> batch_count ?cur' = b"
      if "truthy (f_batch_delta req) \<or> truthy (f_batch_count req)"
        and "int_or_none (f_batch_delta req) = Inr a" and "int_or_none (f_batch_count req) = Inr b"
      for a b
    proof -
      let ?pb = "(snd pref2)\<lparr>batch_delta := a, batch_count := b\<rparr>"
      have "fst (details_view e d req) =
          fst (enable_change (save_pref d2 (fst pref2, ?pb)) (fst pref2, ?pb) ?t)"
        by (simp add: view batch_change_both [OF that])
      moreover from found_save_pref [OF f2, of ?pb]
      have "first (is_pref ?o ?c) (preferences (save_pref d2 (fst pref2, ?pb))) = Some (fst pref2, ?pb)"
        by simp
      from current_preference_found [OF current_after_enable_change [OF this, of ?t], of e]
      have "current_preference e (fst (enable_change (save_pref d2 (fst pref2, ?pb)) (fst pref2, ?pb) ?t)) ?o ?c
        = ?pb\<lparr>enabled := (if ?t then \<not> enabled ?pb else enabled ?pb)\<rparr>" by simp
      ultimately show ?thesis by simp
    qed
    have missing: "snd (handle_details e d req) = Json_error 400 Batch_delta_not_integer
        \<and> batch_delta ?cur' = batch_delta ?cur \<and> batch_count ?cur' = batch_count ?cur"
      if "(f_batch_delta req = None \<and> truthy (f_batch_count req))
            \<or> (f_batch_count req = None \<and> (\<exists>a. int_or_none (f_batch_delta req) = Inr a))"
    proof -
      have "handle_details e d req = (d2, Json_error 400 Batch_delta_not_integer)"
        by (simp add: handle_details_def view batch_change_one_missing [OF that] api_method_def)
      with f2cur b2 show ?thesis by simp
    qed
    from none both missing show ?thesis by blast
  qed
  from accepted rejected int_or_none_disabled show ?thesis by blast
qed

theorem C5_batch_values_written_together_witness:
  "passes_checks env0 db1
      (req0\<lparr>f_detail_value := Some ''alice@example.com'', f_batch_delta := Some ''3600'',
            f_batch_count := Some ''<disabled>''\<rparr>)
    \<and> detail_accepted env0 db1
      (req0\<lparr>f_detail_value := Some ''alice@example.com'', f_batch_delta := Some ''3600'',
            f_batch_count := Some ''<disabled>''\<rparr>)
    \<and> int_or_none (Some ''3600'') = Inr (Some 3600)
    \<and> batch_delta (current_preference env0 (fst (handle_details env0 db1
          (req0\<lparr>f_detail_value := Some ''alice@example.com'', f_batch_delta := Some ''3600'',
                f_batch_count := Some ''<disabled>''\<rparr>)))
          ''alice'' ''email'') = Some 3600
    \<and> batch_count (current_preference env0 (fst (handle_details env0 db1
          (req0\<lparr>f_detail_value := Some ''alice@example.com'', f_batch_delta := Some ''3600'',
                f_batch_count := Some ''<disabled>''\<rparr>)))
          ''alice'' ''email'') = None
    \<and> \<not> detail_accepted env0 db1
      (req0\<lparr>f_detail_value := Some ''nobody'', f_batch_delta := Some ''3600'',
            f_batch_count := Some ''10''\<rparr>)
    \<and> fst (handle_details env0 db1
      (req0\<lparr>f_detail_value := Some ''nobody'', f_batch_delta := Some ''3600'',
            f_batch_count := Some ''10''\<rparr>)) = db1"
proof -
  let ?r = "req0\<lparr>f_detail_value := Some ''alice@example.com'', f_batch_delta := Some ''3600'',
            f_batch_count := Some ''<disabled>''\<rparr>"
  let ?q = "req0\<lparr>f_detail_value := Some ''nobody'', f_batch_delta := Some ''3600'',
            f_batch_count := Some ''10''\<rparr>"
  have c: "passes_checks env0 db1 ?r" by (simp add: passes_checks_def req0_def db1_def)
  have cq: "passes_checks env0 db1 ?q" by (simp add: passes_checks_def req0_def db1_def)
  have g: "Preference_get_or_create env0 db1 ''alice'' ''email'' = (db1, (0, alice_pref))"
    by (simp add: Preference_get_or_create_def db1_def first_def is_pref_def alice_pref_def)
  have o: "f_openid ?r = ''alice''" "f_context ?r = ''email''"
    "f_openid ?q = ''alice''" "f_context ?q = ''email''" by (simp_all add: req0_def)
  have n: "detail_accepted env0 db1 ?r"
    by (simp add: detail_accepted_def o env0_def)
  have nq: "\<not> detail_accepted env0 db1 ?q"
    by (simp add: detail_accepted_def o current_preference_def g) (simp add: env0_def alice_pref_def)
  have t: "truthy (f_batch_delta ?r) \<or> truthy (f_batch_count ?r)" by (simp add: truthy_def)
  have a: "int_or_none (f_batch_delta ?r) = Inr (Some 3600)"
    by (simp add: int_or_none_def py_int_def strip_def is_space_def unsigned_int_def is_digit_def
        Let_def)
  have b: "int_or_none (f_batch_count ?r) = Inr None" by (simp add: int_or_none_def)
  from C5_batch_values_written_together [OF c] n t a b
  have v: "batch_delta (current_preference env0 (fst (handle_details env0 db1 ?r))
          (f_openid ?r) (f_context ?r)) = Some 3600
      \<and> batch_count (current_preference env0 (fst (handle_details env0 db1 ?r))
          (f_openid ?r) (f_context ?r)) = None"
    by blast
  from C5_batch_values_written_together [OF cq] nq
  have "fst (handle_details env0 db1 ?q) =
      fst (Preference_get_or_create env0 db1 (f_openid ?q) (f_context ?q))" by blast
  then have w: "fst (handle_details env0 db1 ?q) = db1" by (simp only: o g fst_conv)
  from c n a v nq w show ?thesis by (simp add: o)
qed

end
